theory Spec2Isabelle
  imports Main "HOL-Library.Sublist" "HOL-Library.List_Lexorder" "HOL-Library.Char_ord"
begin


section \<open>JavaScript values\<close>

subsection \<open>Strings\<close>

text \<open>
  A JavaScript string is a list of code units; \<^typ>\<open>char\<close> stands for one code unit, and
  the order of \<^theory_text>\<open>Char_ord\<close> with the lexicographic order on lists is the order of
  the default comparison of \<^verbatim>\<open>Array.prototype.sort\<close> on strings.  A \<^verbatim>\<open>Buffer\<close> is
  modelled by the string it holds.
\<close>

abbreviation nl :: string where "nl \<equiv> [CHR 0x0A]"
abbreviation dq :: string where "dq \<equiv> [CHR 0x22]"
abbreviation sq :: string where "sq \<equiv> [CHR 0x27]"

text \<open>\<^verbatim>\<open>Array.prototype.join\<close>; a template literal prints an array as \<open>js_join '',''\<close>.\<close>

fun js_join :: "string \<Rightarrow> string list \<Rightarrow> string" where
  "js_join s [] = []"
| "js_join s [x] = x"
| "js_join s (x # y # ys) = x @ s @ js_join s (y # ys)"

text \<open>The character class \<^verbatim>\<open>[a-zA-Z0-9]\<close>.\<close>

definition is_alnum :: "char \<Rightarrow> bool" where
  "is_alnum c \<longleftrightarrow>
     (CHR ''a'' \<le> c \<and> c \<le> CHR ''z'') \<or> (CHR ''A'' \<le> c \<and> c \<le> CHR ''Z'') \<or>
     (CHR ''0'' \<le> c \<and> c \<le> CHR ''9'')"

text \<open>\<^verbatim>\<open>s.replace(pat, rep)\<close> for a string pattern: the first occurrence only.\<close>

fun js_replace :: "string \<Rightarrow> string \<Rightarrow> string \<Rightarrow> string" where
  "js_replace pat rep [] = (if pat = [] then rep else [])"
| "js_replace pat rep (c # cs) =
     (if prefix pat (c # cs) then rep @ drop (length pat) (c # cs)
      else c # js_replace pat rep cs)"

text \<open>White space and line terminators among the code units below 256, for \<^verbatim>\<open>trim\<close>.\<close>

definition js_is_space :: "char \<Rightarrow> bool" where
  "js_is_space c \<longleftrightarrow> c \<in> set [CHR 0x09, CHR 0x0A, CHR 0x0B, CHR 0x0C, CHR 0x0D, CHR 0x20, CHR 0xA0]"

definition js_trim :: "string \<Rightarrow> string" where
  "js_trim s = rev (dropWhile js_is_space (rev (dropWhile js_is_space s)))"

text \<open>\<^verbatim>\<open>s.slice(a, b)\<close>: a negative index counts from the end, and both are clamped.\<close>

definition js_slice :: "string \<Rightarrow> int \<Rightarrow> int \<Rightarrow> string" where
  "js_slice s a b =
     (let n = int (length s);
          from = (if a < 0 then max (n + a) 0 else min a n);
          to = (if b < 0 then max (n + b) 0 else min b n)
      in take (nat (to - from)) (drop (nat from) s))"

text \<open>
  \<^verbatim>\<open>s.replace(/\?.+$/, '')\<close>: the match starts at the first question mark that has at
  least one character after it and no line terminator up to the end of the string.
\<close>

definition line_terminator :: "char \<Rightarrow> bool" where
  "line_terminator c \<longleftrightarrow> c = CHR 0x0A \<or> c = CHR 0x0D"

fun strip_query :: "string \<Rightarrow> string" where
  "strip_query [] = []"
| "strip_query (c # cs) =
     (if c = CHR ''?'' \<and> cs \<noteq> [] \<and> list_all (\<lambda>d. \<not> line_terminator d) cs then []
      else c # strip_query cs)"

subsection \<open>Ordinary objects\<close>

text \<open>
  An object with string keys is the list of its own properties in the order
  \<^verbatim>\<open>Object.keys\<close> and \<^verbatim>\<open>Object.entries\<close> enumerate them: the array indices first, by
  ascending value, then the other keys in the order of their creation.
\<close>

type_synonym 'v js_object = "(string \<times> 'v) list"

definition is_digit :: "char \<Rightarrow> bool" where
  "is_digit c \<longleftrightarrow> CHR ''0'' \<le> c \<and> c \<le> CHR ''9''"

definition digits_value :: "string \<Rightarrow> nat" where
  "digits_value ds = foldl (\<lambda>n c. 10 * n + (of_char c - 48)) 0 ds"

definition is_array_index :: "string \<Rightarrow> bool" where
  "is_array_index k \<longleftrightarrow>
     k \<noteq> [] \<and> list_all is_digit k \<and> (k = ''0'' \<or> hd k \<noteq> CHR ''0'') \<and>
     digits_value k < 2 ^ 32 - 1"

fun insert_index :: "string \<Rightarrow> 'v \<Rightarrow> 'v js_object \<Rightarrow> 'v js_object" where
  "insert_index k v [] = [(k, v)]"
| "insert_index k v ((k', v') # rest) =
     (if is_array_index k' \<and> digits_value k' < digits_value k
      then (k', v') # insert_index k v rest
      else (k, v) # (k', v') # rest)"

text \<open>The assignment \<^verbatim>\<open>obj[k] = v\<close>.\<close>

definition obj_set :: "string \<Rightarrow> 'v \<Rightarrow> 'v js_object \<Rightarrow> 'v js_object" where
  "obj_set k v obj =
     (if k \<in> set (map fst obj) then map (\<lambda>(k', v'). if k' = k then (k', v) else (k', v')) obj
      else if is_array_index k then insert_index k v obj
      else obj @ [(k, v)])"

definition Object_keys :: "'v js_object \<Rightarrow> string list" where
  "Object_keys obj = map fst obj"

definition Object_entries :: "'v js_object \<Rightarrow> (string \<times> 'v) list" where
  "Object_entries obj = obj"


subsection \<open>Errors and promises\<close>

text \<open>
  A thrown value.  The outcome of a call that can throw, and of an awaited promise, is a sum:
  \<open>Inl\<close> the error thrown (the promise rejected), \<open>Inr\<close> the value returned.
\<close>

datatype js_error = Error string | TypeError string | SystemError string

type_synonym 'a outcome = "js_error + 'a"

subsection \<open>Files\<close>

text \<open>
  The file system maps an absolute path to the content of the file there.  The only failure
  modelled is the one of a missing file (\<^verbatim>\<open>ENOENT\<close>).
\<close>

type_synonym fs = "string \<rightharpoonup> string"

definition readFile :: "string \<Rightarrow> fs \<Rightarrow> string outcome" where
  "readFile p f = (case f p of None \<Rightarrow> Inl (SystemError (''ENOENT: '' @ p)) | Some c \<Rightarrow> Inr c)"

definition writeFile :: "string \<Rightarrow> string \<Rightarrow> fs \<Rightarrow> fs" where
  "writeFile p c f = f(p \<mapsto> c)"

definition appendFile :: "string \<Rightarrow> string \<Rightarrow> fs \<Rightarrow> fs" where
  "appendFile p c f = f(p \<mapsto> (case f p of None \<Rightarrow> c | Some old \<Rightarrow> old @ c))"

definition unlink :: "string \<Rightarrow> fs \<Rightarrow> unit outcome \<times> fs" where
  "unlink p f =
     (case f p of None \<Rightarrow> (Inl (SystemError (''ENOENT: '' @ p)), f)
      | Some c \<Rightarrow> (Inr (), f(p := None)))"

section \<open>Data model\<close>

subsection \<open>Plugin options and build options\<close>

text \<open>
  A field that may be \<^verbatim>\<open>undefined\<close> has an option type.  Where several objects of the source
  have a field of the same name, the fields of all but one carry a prefix.
\<close>

datatype inject_opt = InjectBool bool | InjectSelector string

datatype js_watch = WatchBool bool | WatchMode

record css_modules_option =
  cmo_pattern :: "string option"
  cmo_dashedIdents :: "bool option"

record options =
  v2CssModulesOption :: "css_modules_option option"
  generateTsFile :: "bool option"
  inject :: "inject_opt option"
  opt_watch :: "js_watch option"
  root :: "string option"

datatype entry_point = EntryString string | EntryInOut string string

datatype entry_points = EntryArray "entry_point list" | EntryRecord "entry_point js_object"

datatype js_sourcemap = SourcemapBool bool | SourcemapStr string

record initial_options =
  absWorkingDir :: "string option"
  charset :: "string option"
  outdir :: "string option"
  sourceRoot :: "string option"
  sourcemap :: "js_sourcemap option"
  sourcesContent :: "bool option"
  entryPoints :: "entry_points option"
  minify :: "bool option"
  logLevel :: "string option"
  format :: "string option"
  target :: "string list option"
  external :: "string list option"
  publicPath :: "string option"
  metafile :: "bool option"
  watch :: "js_watch option"

text \<open>
  \<^verbatim>\<open>build.context\<close>.  The logger is left out (logging has no effect on the build), and the
  cache object \<^verbatim>\<open>context.cache\<close> lives in the store (\<open>world\<close> below), since the load
  handler mutates it.
\<close>

record build_ctx =
  buildId :: string
  buildRoot :: string
  packageRoot :: "string option"
  packageVersion :: "string option"
  relative :: "string \<Rightarrow> string"

record build =
  initialOptions :: initial_options
  build_context :: "build_ctx option"

subsection \<open>Truthiness\<close>

definition truthy_inject :: "inject_opt option \<Rightarrow> bool" where
  "truthy_inject i = (case i of None \<Rightarrow> False | Some (InjectBool v) \<Rightarrow> v | Some (InjectSelector s) \<Rightarrow> s \<noteq> [])"

definition truthy_watch :: "js_watch \<Rightarrow> bool" where
  "truthy_watch x = (case x of WatchBool v \<Rightarrow> v | WatchMode \<Rightarrow> True)"

definition truthy_bool :: "bool option \<Rightarrow> bool" where
  "truthy_bool x = (case x of None \<Rightarrow> False | Some v \<Rightarrow> v)"

definition truthy_string :: "string option \<Rightarrow> bool" where
  "truthy_string x = (case x of None \<Rightarrow> False | Some s \<Rightarrow> s \<noteq> [])"

definition truthy_sourcemap :: "js_sourcemap option \<Rightarrow> bool" where
  "truthy_sourcemap x = (case x of None \<Rightarrow> False | Some (SourcemapBool v) \<Rightarrow> v | Some (SourcemapStr s) \<Rightarrow> s \<noteq> [])"

subsection \<open>The transform and the modules of a load\<close>

record css_module_export =
  ex_name :: string
  ex_isReferenced :: bool

type_synonym css_exports = "css_module_export js_object"

record css_modules_config =
  pattern :: string
  dashedIdents :: "bool option"

record bundle_config =
  bc_filename :: string
  bc_code :: string
  bc_minify :: bool
  bc_sourceMap :: bool
  bc_cssModules :: css_modules_config
  bc_analyzeDependencies :: bool

record transform_result =
  tr_code :: string
  tr_exports :: "css_exports option"
  tr_map :: "string option"

text \<open>The value \<^verbatim>\<open>buildCssModulesJs\<close> returns.\<close>

record compiled =
  c_js :: string
  c_css :: string
  c_originCss :: string
  c_exports :: css_exports
  c_resolveDir :: string

text \<open>\<^verbatim>\<open>pluginData\<close>, the arguments of a load and its result.\<close>

record plugin_data =
  relativePathToBuildRoot :: "string option"
  pd_css :: "string option"
  pd_exports :: "css_exports option"
  pd_digest :: "string option"

record on_load_args =
  la_path :: string
  la_suffix :: "string option"
  la_pluginData :: "plugin_data option"

record on_load_result =
  lr_pluginName :: string
  lr_resolveDir :: string
  lr_pluginData :: plugin_data
  lr_contents :: string
  lr_loader :: string

subsection \<open>The store\<close>

text \<open>
  Modelled from the spec: the entry of the Build Cache (\<^verbatim>\<open>./cache.js\<close> is not among the
  sources).  The cache maps an absolute source path to a load result and the digest of the
  content the result was computed from.
\<close>

record cache_entry =
  ce_result :: on_load_result
  ce_contentDigest :: string

type_synonym build_cache = "string \<rightharpoonup> cache_entry"

text \<open>
  The mutable state the handlers share: the files, the cache of the build's context, and a
  counter of the calls of the compiler adapter, which is no variable of the source and is
  kept only to state how often it runs.
\<close>

record world =
  files :: fs
  cache :: build_cache
  compiler_calls :: nat

text \<open>
  Modelled from the spec: \<^verbatim>\<open>cache.get\<close> of the Build Cache.  An entry is valid only while
  the digest of the file's content is unchanged, so it returns the stored result when the
  file is there and its content has the stored digest, and nothing otherwise; it changes
  nothing.  The digest function \<open>cd\<close> is a parameter.
\<close>

definition BuildCache_get :: "(string \<Rightarrow> string) \<Rightarrow> string \<Rightarrow> world \<Rightarrow> on_load_result option" where
  "BuildCache_get cd absPath w =
     (case cache w absPath of None \<Rightarrow> None
      | Some e \<Rightarrow>
         (case files w absPath of None \<Rightarrow> None
          | Some content \<Rightarrow> if cd content = ce_contentDigest e then Some (ce_result e) else None))"

text \<open>
  Modelled from the spec: \<^verbatim>\<open>cache.set\<close> of the Build Cache.  It stores the result, keyed by
  the absolute path, together with the digest of the source content it is given.
\<close>

definition BuildCache_set ::
  "(string \<Rightarrow> string) \<Rightarrow> string \<Rightarrow> on_load_result \<Rightarrow> string \<Rightarrow> world \<Rightarrow> world" where
  "BuildCache_set cd absPath res originContent w =
     w\<lparr>cache := (cache w)(absPath \<mapsto> \<lparr>ce_result = res, ce_contentDigest = cd originContent\<rparr>)\<rparr>"

subsection \<open>What the plugin imports\<close>

text \<open>The functions of Node's \<^verbatim>\<open>path\<close> module that the plugin calls.\<close>

record path_lib =
  path_sep :: char
  path_isAbsolute :: "string \<Rightarrow> bool"
  path_resolve :: "string \<Rightarrow> string \<Rightarrow> string"
  path_relative :: "string \<Rightarrow> string \<Rightarrow> string"
  path_basename :: "string \<Rightarrow> string"
  path_basename2 :: "string \<Rightarrow> string \<Rightarrow> string"
  path_extname :: "string \<Rightarrow> string"
  path_dirname :: "string \<Rightarrow> string"

text \<open>
  \<^verbatim>\<open>./utils.js\<close> is not among the sources: its constants and functions are parameters.
  \<^verbatim>\<open>getBuildId\<close> is awaited and reads files, so it has an outcome.
\<close>

record utils =
  pluginName :: string
  pluginNamespace :: string
  buildingCssSuffix :: string
  builtCssSuffix :: string
  validateNamedExport :: "string \<Rightarrow> bool"
  buildInjectCode :: "string \<Rightarrow> string \<Rightarrow> string \<Rightarrow> options \<Rightarrow> string"
  getBuildId :: "build \<Rightarrow> fs \<Rightarrow> string outcome"
  getPackageVersion :: "build \<Rightarrow> string option"
  getRootDir :: "build \<Rightarrow> string"
  getRelativePath :: "build \<Rightarrow> string \<Rightarrow> string"

text \<open>
  The packages the plugin calls: lightningcss (\<^verbatim>\<open>cssHandler.transform\<close>), lodash, Node's
  \<^verbatim>\<open>crypto\<close> and \<^verbatim>\<open>Buffer\<close>, prettier (\<open>None\<close> when it is not installed) and the host
  bundler (\<^verbatim>\<open>build.esbuild\<close>, \<^verbatim>\<open>build.resolve\<close>).  A nested build reads and writes files.
\<close>

record esbuild_transform_options =
  to_charset :: string
  to_loader :: string
  to_sourcemap :: bool
  to_minify :: bool
  to_logLevel :: "string option"
  to_format :: "string option"
  to_target :: "string list option"

record esbuild_build_options =
  bo_charset :: string
  bo_absWorkingDir :: string
  bo_write :: bool
  bo_allowOverwrite :: bool
  bo_treeShaking :: bool
  bo_logLevel :: "string option"
  bo_format :: "string option"
  bo_target :: "string list option"
  bo_minify :: "bool option"
  bo_sourceRoot :: "string option"
  bo_publicPath :: "string option"
  bo_sourcemap :: "js_sourcemap option"
  bo_sourcesContent :: "bool option"
  bo_entryPoints :: "string js_object"
  bo_outdir :: string
  bo_bundle :: bool
  bo_external :: "string list option"

record libs =
  lightningcss_transform :: "bundle_config \<Rightarrow> transform_result outcome"
  camelCase :: "string \<Rightarrow> string"
  kebabCase :: "string \<Rightarrow> string"
  sha256_hex :: "string \<Rightarrow> string"
  base64 :: "string \<Rightarrow> string"
  prettier_format :: "(string \<Rightarrow> string outcome) option"
  esbuild_transform :: "string \<Rightarrow> esbuild_transform_options \<Rightarrow> string outcome"
  esbuild_build :: "esbuild_build_options \<Rightarrow> fs \<Rightarrow> unit outcome \<times> fs"
  host_resolve :: "string \<Rightarrow> string \<Rightarrow> string outcome"

section \<open>The compiler adapter: \<^verbatim>\<open>buildCssModulesJs\<close>\<close>

text \<open>The local constants of the function, one definition each, under the source's names.\<close>

definition classPrefix :: "path_lib \<Rightarrow> string \<Rightarrow> string" where
  "classPrefix P fullPath =
     map (\<lambda>c. if is_alnum c then c else CHR ''-'')
       (path_basename2 P fullPath (path_extname P fullPath)) @ ''__''"

definition versionString :: "string option \<Rightarrow> string" where
  "versionString pv = (case pv of None \<Rightarrow> [] | Some v \<Rightarrow> filter is_alnum v)"

definition bundleConfig :: "path_lib \<Rightarrow> build_ctx \<Rightarrow> options \<Rightarrow> string \<Rightarrow> string \<Rightarrow> bundle_config" where
  "bundleConfig P ctx opts fullPath originCss =
     (let cssModulesOption =
            (case v2CssModulesOption opts of
               None \<Rightarrow> \<lparr>cmo_pattern = None, cmo_dashedIdents = None\<rparr>
             | Some c \<Rightarrow> c)
      in \<lparr>bc_filename = relative ctx fullPath,
          bc_code = originCss,
          bc_minify = False,
          bc_sourceMap = True,
          bc_cssModules =
            \<lparr>pattern =
               (case cmo_pattern cssModulesOption of
                  None \<Rightarrow> classPrefix P fullPath @ ''[local]_[hash]'' @ versionString (packageVersion ctx)
                | Some p \<Rightarrow> p),
             dashedIdents = cmo_dashedIdents cssModulesOption\<rparr>,
          bc_analyzeDependencies = False\<rparr>)"

text \<open>
  The destructuring \<^verbatim>\<open>exports = {}\<close> of the transform's result, and
  \<^verbatim>\<open>cssModulesJSON\<close>: the keys of the export table, sorted, are visited in that order, and
  each is assigned the scoped name of its entry.  A key of \<^verbatim>\<open>Object.keys(exports)\<close> has an
  entry in \<open>exports\<close>, so the other branch of the lookup is never taken.
\<close>

definition exports_of :: "transform_result \<Rightarrow> css_exports" where
  "exports_of tr = (case tr_exports tr of None \<Rightarrow> [] | Some ex \<Rightarrow> ex)"

definition cssModulesJSON_of :: "css_exports \<Rightarrow> string js_object" where
  "cssModulesJSON_of exports =
     foldl (\<lambda>json originClass.
              case map_of exports originClass of
                Some e \<Rightarrow> obj_set originClass (ex_name e) json
              | None \<Rightarrow> json)
       [] (sort (Object_keys exports))"

definition classNameEntry :: "libs \<Rightarrow> string \<times> string \<Rightarrow> string" where
  "classNameEntry L = (\<lambda>(name, val).
     (let k = kebabCase L name
      in (if CHR ''-'' \<in> set k then sq @ k @ sq else k) @ '': '' @ sq @ val @ sq))"

definition classNamesMapString :: "libs \<Rightarrow> string js_object \<Rightarrow> string" where
  "classNamesMapString L json =
     ''{'' @ nl @ js_join '','' (map (classNameEntry L) (Object_entries json)) @ nl @ ''}''"

definition cssWithSourceMap :: "libs \<Rightarrow> transform_result \<Rightarrow> string" where
  "cssWithSourceMap L tr =
     tr_code tr @
     (case tr_map tr of
        None \<Rightarrow> []
      | Some m \<Rightarrow> nl @ ''/*# sourceMappingURL=data:application/json;base64,'' @ base64 L m @ '' */'')"

definition cssImportPath :: "path_lib \<Rightarrow> utils \<Rightarrow> string \<Rightarrow> string" where
  "cssImportPath P U fullPath =
     ''./'' @
     js_replace (buildingCssSuffix U) []
       (js_trim (map (\<lambda>c. if c = path_sep P then CHR ''/'' else c) (path_basename P fullPath))) @
     builtCssSuffix U"

definition importStatement :: "path_lib \<Rightarrow> utils \<Rightarrow> string \<Rightarrow> string" where
  "importStatement P U fullPath = ''import '' @ dq @ cssImportPath P U fullPath @ dq @ '';''"

definition exportStatement :: "options \<Rightarrow> string \<Rightarrow> string \<Rightarrow> string" where
  "exportStatement opts bid cnms =
     (if truthy_inject (inject opts)
      then nl @ ''export default new Proxy('' @ cnms @ '', {'' @ nl @
           ''  get: function(source, key) {'' @ nl @
           ''    setTimeout(() => {'' @ nl @
           ''      window.__inject_'' @ bid @ ''__ && window.__inject_'' @ bid @ ''__();'' @ nl @
           ''    }, 0);'' @ nl @
           ''    return source[key];'' @ nl @
           ''  }'' @ nl @
           ''});'' @ nl @ ''  ''
      else ''export default '' @ cnms @ '';'')"

definition reservedMessage :: "string \<Rightarrow> string \<Rightarrow> string" where
  "reservedMessage camelCaseClassName fullPath =
     ''the class name '' @ dq @ camelCaseClassName @ dq @ '' in file '' @ fullPath @
     '' is a reserved keyword in javascript, please change it to someother word to avoid potential errors''"

text \<open>
  The callback of \<^verbatim>\<open>namedExportStatements\<close> over the entries, in their order: the \<^verbatim>\<open>line\<close>
  of each entry, or the error thrown at the first entry whose camelCase name is refused.
\<close>

definition namedExportLine :: "string \<Rightarrow> string \<Rightarrow> string" where
  "namedExportLine camelCaseClassName className =
     ''export const '' @ camelCaseClassName @ '' = '' @ dq @ className @ dq"

fun namedExportLines :: "utils \<Rightarrow> libs \<Rightarrow> string \<Rightarrow> (string \<times> string) list \<Rightarrow> string list outcome" where
  "namedExportLines U L fullPath [] = Inr []"
| "namedExportLines U L fullPath ((ccn, className) # rest) =
     (let camelCaseClassName = camelCase L ccn
      in if \<not> validateNamedExport U camelCaseClassName
         then Inl (Error (reservedMessage camelCaseClassName fullPath))
         else (case namedExportLines U L fullPath rest of
                 Inl e \<Rightarrow> Inl e
               | Inr ls \<Rightarrow> Inr (namedExportLine camelCaseClassName className # ls)))"

definition jsText :: "path_lib \<Rightarrow> utils \<Rightarrow> libs \<Rightarrow> options \<Rightarrow> string \<Rightarrow> string \<Rightarrow> string js_object \<Rightarrow> string list \<Rightarrow> string" where
  "jsText P U L opts bid fullPath json ls =
     importStatement P U fullPath @ nl @
     exportStatement opts bid (classNamesMapString L json) @ '';'' @ nl @
     js_join nl (map (\<lambda>l. l @ '';'') ls)"

definition tsText :: "libs \<Rightarrow> string js_object \<Rightarrow> string list \<Rightarrow> string" where
  "tsText L json ls =
     map (\<lambda>c. if c = CHR 0x22 then CHR 0x27 else c)
       (''export default '' @ classNamesMapString L json @ '' as const;'' @ nl @
        js_join nl (map (\<lambda>l. l @ '' as const;'') ls) @ nl)"

definition tsPath :: "string \<Rightarrow> string" where
  "tsPath fullPath = strip_query fullPath @ ''.ts''"

text \<open>
  The function.  Every call counts in \<open>compiler_calls\<close>.  The steps that can throw are, in
  order: reading \<^verbatim>\<open>build.context\<close>, \<^verbatim>\<open>readFile\<close>, the transform, the check of the named
  exports, and with \<^verbatim>\<open>generateTsFile\<close> the formatter; the declaration file is written last.
\<close>

definition buildCssModulesJs ::
  "path_lib \<Rightarrow> utils \<Rightarrow> libs \<Rightarrow> string \<Rightarrow> options \<Rightarrow> build \<Rightarrow> world \<Rightarrow> compiled outcome \<times> world" where
  "buildCssModulesJs P U L fullPath opts b w0 =
     (let w = w0\<lparr>compiler_calls := Suc (compiler_calls w0)\<rparr>
      in case build_context b of
           None \<Rightarrow> (Inl (TypeError ''Cannot destructure property of build.context''), w)
         | Some ctx \<Rightarrow>
        (case readFile fullPath (files w) of
           Inl e \<Rightarrow> (Inl e, w)
         | Inr originCss \<Rightarrow>
        (case lightningcss_transform L (bundleConfig P ctx opts fullPath originCss) of
           Inl e \<Rightarrow> (Inl e, w)
         | Inr tr \<Rightarrow>
        (let exports = exports_of tr;
             cssModulesJSON = cssModulesJSON_of exports
         in case namedExportLines U L fullPath (Object_entries cssModulesJSON) of
              Inl e \<Rightarrow> (Inl e, w)
            | Inr ls \<Rightarrow>
           (let res = \<lparr>c_js = jsText P U L opts (buildId ctx) fullPath cssModulesJSON ls,
                       c_css = cssWithSourceMap L tr,
                       c_originCss = originCss,
                       c_exports = exports,
                       c_resolveDir = path_dirname P fullPath\<rparr>
            in if truthy_bool (generateTsFile opts)
               then (case (case prettier_format L of
                             None \<Rightarrow> Inr (tsText L cssModulesJSON ls)
                           | Some fmt \<Rightarrow> fmt (tsText L cssModulesJSON ls)) of
                       Inl e \<Rightarrow> (Inl e, w)
                     | Inr ts \<Rightarrow> (Inr res, w\<lparr>files := writeFile (tsPath fullPath) ts (files w)\<rparr>))
               else (Inr res, w))))))"

section \<open>Preparation: \<^verbatim>\<open>prepareBuild\<close>\<close>

text \<open>
  The function mutates the build object; the model returns the build as it is when the
  function ends, also when it ends by an error.  \<^verbatim>\<open>getBuildId\<close> is the only step that is
  awaited, and it comes first.  The closure \<^verbatim>\<open>relative\<close> and \<^verbatim>\<open>getRootDir\<close> see the build
  with \<^verbatim>\<open>metafile\<close> set; \<^verbatim>\<open>new BuildCache(build)\<close> is an empty cache.
\<close>

definition prepareBuild :: "utils \<Rightarrow> build \<Rightarrow> options \<Rightarrow> world \<Rightarrow> unit outcome \<times> build \<times> world" where
  "prepareBuild U b opts w =
     (case getBuildId U b (files w) of
        Inl e \<Rightarrow> (Inl e, b, w)
      | Inr bid \<Rightarrow>
         (let pv = getPackageVersion U b;
              b1 = b\<lparr>initialOptions := (initialOptions b)\<lparr>metafile := Some True\<rparr>\<rparr>;
              b2 = b1\<lparr>build_context :=
                        Some \<lparr>buildId = bid,
                              buildRoot = getRootDir U b1,
                              packageRoot = root opts,
                              packageVersion = pv,
                              relative = getRelativePath U b1\<rparr>\<rparr>
          in (Inr (), b2, w\<lparr>cache := Map.empty\<rparr>)))"

definition empty_pluginData :: plugin_data where
  "empty_pluginData =
     \<lparr>relativePathToBuildRoot = None, pd_css = None, pd_exports = None, pd_digest = None\<rparr>"

section \<open>The resolver: \<^verbatim>\<open>onResolveModulesCss\<close>\<close>

record on_resolve_args =
  ra_path :: string
  ra_resolveDir :: string
  ra_pluginData :: "plugin_data option"

record on_resolve_result =
  rr_namespace :: string
  rr_suffix :: string
  rr_path :: string
  rr_external :: bool
  rr_pluginData :: plugin_data
  rr_sideEffects :: bool
  rr_pluginName :: string
  rr_watchFiles :: "string list"

definition onResolveModulesCss :: "utils \<Rightarrow> libs \<Rightarrow> on_resolve_args \<Rightarrow> build \<Rightarrow> on_resolve_result outcome" where
  "onResolveModulesCss U L args b =
     (case build_context b of
        None \<Rightarrow> Inl (TypeError ''Cannot destructure property of build.context'')
      | Some ctx \<Rightarrow>
         (case host_resolve L (ra_path args) (ra_resolveDir args) of
            Inl e \<Rightarrow> Inl e
          | Inr absPath \<Rightarrow>
             (let rpath = relative ctx absPath;
                  pluginData = (case ra_pluginData args of None \<Rightarrow> empty_pluginData | Some d \<Rightarrow> d)
              in Inr \<lparr>rr_namespace = pluginNamespace U,
                       rr_suffix = buildingCssSuffix U,
                       rr_path = rpath,
                       rr_external = False,
                       rr_pluginData = pluginData\<lparr>relativePathToBuildRoot := Some rpath\<rparr>,
                       rr_sideEffects = True,
                       rr_pluginName = pluginName U,
                       rr_watchFiles = [absPath]\<rparr>)))"

section \<open>The loader: \<^verbatim>\<open>onLoadModulesCss\<close>\<close>

text \<open>\<^verbatim>\<open>build.initialOptions.watch ?? options.watch ?? false\<close>, as a condition.\<close>

definition useCache :: "build \<Rightarrow> options \<Rightarrow> bool" where
  "useCache b opts =
     (case watch (initialOptions b) of
        Some v \<Rightarrow> truthy_watch v
      | None \<Rightarrow> (case opt_watch opts of Some v \<Rightarrow> truthy_watch v | None \<Rightarrow> False))"

definition load_absPath :: "path_lib \<Rightarrow> build_ctx \<Rightarrow> on_load_args \<Rightarrow> string" where
  "load_absPath P ctx args =
     (if path_isAbsolute P (la_path args) then la_path args
      else path_resolve P (buildRoot ctx) (la_path args))"

text \<open>Lines 230 and 231: the hash of the relative path, and the slice of its last 255 characters.\<close>

definition load_digest :: "libs \<Rightarrow> string \<Rightarrow> string" where
  "load_digest L rpath =
     (let hex = sha256_hex L rpath
      in js_slice hex (int (length hex) - 255) (int (length hex)))"

text \<open>
  The handler.  \<open>cd\<close> is the digest function of the cache.  Hashing an undefined relative
  path throws.  The cache is read only under \<open>useCache\<close>, and written only under
  \<open>useCache\<close> after the compiler adapter has returned.
\<close>

definition onLoadModulesCss ::
  "(string \<Rightarrow> string) \<Rightarrow> path_lib \<Rightarrow> utils \<Rightarrow> libs \<Rightarrow> build \<Rightarrow> options \<Rightarrow> on_load_args \<Rightarrow> world
     \<Rightarrow> on_load_result outcome \<times> world" where
  "onLoadModulesCss cd P U L b opts args w =
     (case build_context b of
        None \<Rightarrow> (Inl (TypeError ''Cannot destructure property of build.context''), w)
      | Some ctx \<Rightarrow>
         (let pluginData = (case la_pluginData args of None \<Rightarrow> empty_pluginData | Some d \<Rightarrow> d);
              absPath = load_absPath P ctx args;
              rpath = relativePathToBuildRoot pluginData;
              cached = (if useCache b opts then BuildCache_get cd absPath w else None)
          in case cached of
               Some r \<Rightarrow> (Inr r, w)
             | None \<Rightarrow>
                (case rpath of
                   None \<Rightarrow> (Inl (TypeError ''The data argument must be of type string''), w)
                 | Some rp \<Rightarrow>
                    (let digest = load_digest L rp
                     in case buildCssModulesJs P U L absPath opts b w of
                          (Inl e, w1) \<Rightarrow> (Inl e, w1)
                        | (Inr c, w1) \<Rightarrow>
                           (let result =
                                  \<lparr>lr_pluginName = pluginName U,
                                   lr_resolveDir = c_resolveDir c,
                                   lr_pluginData =
                                     pluginData\<lparr>pd_css := Some (c_css c),
                                                pd_exports := Some (c_exports c),
                                                pd_digest := Some digest\<rparr>,
                                   lr_contents = c_js c,
                                   lr_loader = ''js''\<rparr>
                            in (Inr result,
                                if useCache b opts
                                then BuildCache_set cd absPath result (c_originCss c) w1
                                else w1))))))"

section \<open>The post-build step: \<^verbatim>\<open>onEnd\<close>\<close>

record metafile_output =
  mo_entryPoint :: "string option"
  mo_bytes :: nat

text \<open>\<^verbatim>\<open>result.metafile?.outputs\<close>: \<open>None\<close> when the result has no metafile.\<close>

record build_result =
  br_outputs :: "metafile_output js_object option"

definition transformCss :: "libs \<Rightarrow> initial_options \<Rightarrow> string \<Rightarrow> string outcome" where
  "transformCss L io css_text =
     esbuild_transform L css_text
       \<lparr>to_charset = (case charset io of None \<Rightarrow> ''utf8'' | Some c \<Rightarrow> c),
        to_loader = ''css'',
        to_sourcemap = False,
        to_minify = True,
        to_logLevel = logLevel io,
        to_format = format io,
        to_target = target io\<rparr>"

definition tmpJsPath :: "path_lib \<Rightarrow> string \<Rightarrow> string" where
  "tmpJsPath P absOutdir = path_resolve P absOutdir ''.build.inject.js''"

definition nestedBuildOptions ::
  "initial_options \<Rightarrow> string \<Rightarrow> string \<Rightarrow> string \<Rightarrow> esbuild_build_options" where
  "nestedBuildOptions io absOutdir entryName tmp =
     \<lparr>bo_charset = (case charset io of None \<Rightarrow> ''utf8'' | Some c \<Rightarrow> c),
      bo_absWorkingDir = absOutdir,
      bo_write = True,
      bo_allowOverwrite = True,
      bo_treeShaking = False,
      bo_logLevel = logLevel io,
      bo_format = format io,
      bo_target = target io,
      bo_minify = minify io,
      bo_sourceRoot = sourceRoot io,
      bo_publicPath = publicPath io,
      bo_sourcemap = sourcemap io,
      bo_sourcesContent = sourcesContent io,
      bo_entryPoints = [(entryName, tmp)],
      bo_outdir = absOutdir,
      bo_bundle = True,
      bo_external = external io\<rparr>"

text \<open>
  \<^verbatim>\<open>buildJs\<close>, in the order of its statements: the closure \<^verbatim>\<open>r\<close>; the \<^verbatim>\<open>if\<close> that
  fixes the source map reference of the entry (lines 359 to 371), which appends to the entry
  file, or reads and rewrites it, or does nothing; the temporary entry file is written; the
  nested build runs; and \<^verbatim>\<open>unlink\<close> is the statement after it.  There is no \<^verbatim>\<open>try\<close>
  around the nested build.
\<close>

definition relativeToOutdir :: "path_lib \<Rightarrow> string \<Rightarrow> string \<Rightarrow> string" where
  "relativeToOutdir P absOutdir p =
     map (\<lambda>c. if c = path_sep P then CHR ''/'' else c) (path_relative P absOutdir p)"

definition fixSourceMappingURL :: "path_lib \<Rightarrow> initial_options \<Rightarrow> string \<Rightarrow> string \<Rightarrow> fs \<Rightarrow> fs outcome" where
  "fixSourceMappingURL P io absOutdir entryPath f =
     (if sourcemap io = Some (SourcemapStr ''external'')
      then Inr (appendFile entryPath
                  (nl @ ''//# sourceMappingURL='' @ relativeToOutdir P absOutdir entryPath @ ''.map'') f)
      else if truthy_string (publicPath io) \<and> truthy_sourcemap (sourcemap io)
      then (let pp = (case publicPath io of None \<Rightarrow> [] | Some s \<Rightarrow> s);
                fixedPublicPath = (if suffix ''/'' pp then pp else pp @ ''/'')
            in case readFile entryPath f of
                 Inl e \<Rightarrow> Inl e
               | Inr entryContent \<Rightarrow>
                  Inr (writeFile entryPath
                         (js_replace (''sourceMappingURL='' @ fixedPublicPath) ''sourceMappingURL='' entryContent)
                         f))
      else Inr f)"

definition buildJs ::
  "path_lib \<Rightarrow> libs \<Rightarrow> initial_options \<Rightarrow> string \<Rightarrow> string \<Rightarrow> string \<Rightarrow> string \<Rightarrow> world
     \<Rightarrow> unit outcome \<times> world" where
  "buildJs P L io absOutdir entryName entryPath jsCode w =
     (let imports = ''import '' @ dq @ ''./'' @ relativeToOutdir P absOutdir entryPath @ dq @ '';'' @ nl @
                    ''export * from '' @ dq @ ''./'' @ relativeToOutdir P absOutdir entryPath @ dq @ '';''
      in case fixSourceMappingURL P io absOutdir entryPath (files w) of
           Inl e \<Rightarrow> (Inl e, w)
         | Inr f1 \<Rightarrow>
            (let tmpJsCode = imports @ nl @ jsCode;
                 f2 = writeFile (tmpJsPath P absOutdir) tmpJsCode f1
             in case esbuild_build L (nestedBuildOptions io absOutdir entryName (tmpJsPath P absOutdir)) f2 of
                  (Inl e, f3) \<Rightarrow> (Inl e, w\<lparr>files := f3\<rparr>)
                | (Inr u, f3) \<Rightarrow>
                   (case unlink (tmpJsPath P absOutdir) f3 of
                      (res, f4) \<Rightarrow> (res, w\<lparr>files := f4\<rparr>))))"

text \<open>\<^verbatim>\<open>typeof p === "string" ? p : p.in\<close>, and the two loops that fill \<^verbatim>\<open>entriesArray\<close>.\<close>

definition entry_in :: "entry_point \<Rightarrow> string" where
  "entry_in p = (case p of EntryString s \<Rightarrow> s | EntryInOut i out \<Rightarrow> i)"

definition entriesArray :: "entry_points \<Rightarrow> entry_point list" where
  "entriesArray eps =
     (case eps of
        EntryArray xs \<Rightarrow> xs
      | EntryRecord obj \<Rightarrow>
         concat (map (\<lambda>k. case map_of obj k of None \<Rightarrow> [] | Some v \<Rightarrow> [v]) (sort (Object_keys obj))))"

definition entries_of :: "path_lib \<Rightarrow> string \<Rightarrow> entry_points \<Rightarrow> string list" where
  "entries_of P root_dir eps =
     map (\<lambda>p. if path_isAbsolute P (entry_in p) then entry_in p else path_resolve P root_dir (entry_in p))
       (entriesArray eps)"

text \<open>
  The condition of lines 422 to 424 on an output \<open>f\<close>: it has an entry point, that entry
  point is one of \<^verbatim>\<open>entries\<close>, and \<open>f\<close> has a JavaScript extension.  The callbacks of
  \<^verbatim>\<open>outputs.map\<close> run in the order of \<^verbatim>\<open>outputs\<close> up to their first
  \<^verbatim>\<open>await\<close>, so the assignments to \<^verbatim>\<open>entryToInject\<close> happen in that order; \<open>None\<close> is
  \<^verbatim>\<open>null\<close>, and the empty string is falsy as well.
\<close>

definition falsy_path :: "string option \<Rightarrow> bool" where
  "falsy_path e = (case e of None \<Rightarrow> True | Some s \<Rightarrow> s = [])"

definition is_js_ext :: "string \<Rightarrow> bool" where
  "is_js_ext e \<longleftrightarrow> e \<in> set [''.js'', ''.mjs'', ''.cjs'']"

definition is_requested_entry ::
  "path_lib \<Rightarrow> string \<Rightarrow> string list \<Rightarrow> metafile_output js_object \<Rightarrow> string \<Rightarrow> bool" where
  "is_requested_entry P root_dir entries outs f \<longleftrightarrow>
     (case map_of outs f of
        None \<Rightarrow> False
      | Some out \<Rightarrow>
         truthy_string (mo_entryPoint out) \<and>
         (case mo_entryPoint out of
            None \<Rightarrow> False
          | Some ep \<Rightarrow> path_resolve P root_dir ep \<in> set entries)) \<and>
     is_js_ext (path_extname P f)"

fun entryToInject_of ::
  "path_lib \<Rightarrow> string \<Rightarrow> string list \<Rightarrow> metafile_output js_object \<Rightarrow> string option \<Rightarrow> string list
     \<Rightarrow> string option" where
  "entryToInject_of P root_dir entries outs acc [] = acc"
| "entryToInject_of P root_dir entries outs acc (f # fs) =
     entryToInject_of P root_dir entries outs
       (if falsy_path acc \<and> is_requested_entry P root_dir entries outs f
        then Some (path_resolve P root_dir f) else acc)
       fs"

text \<open>
  The rest of each callback, for the outputs with the extension \<^verbatim>\<open>.css\<close>: the file is read
  and transformed.  The tasks run concurrently; here the first failure in the order of
  \<^verbatim>\<open>outputs\<close> is the one reported, and \<open>completion\<close> (a parameter of \<open>onEnd\<close>) puts the
  blobs in the order in which the tasks pushed them.
\<close>

fun cssContents_of ::
  "path_lib \<Rightarrow> libs \<Rightarrow> initial_options \<Rightarrow> string \<Rightarrow> fs \<Rightarrow> string list \<Rightarrow> string list outcome" where
  "cssContents_of P L io root_dir f [] = Inr []"
| "cssContents_of P L io root_dir f (x # xs) =
     (if path_extname P x = ''.css''
      then (case readFile (path_resolve P root_dir x) f of
              Inl e \<Rightarrow> Inl e
            | Inr css_text \<Rightarrow>
               (case transformCss L io css_text of
                  Inl e \<Rightarrow> Inl e
                | Inr transformed \<Rightarrow>
                   (case cssContents_of P L io root_dir f xs of
                      Inl e \<Rightarrow> Inl e
                    | Inr rest \<Rightarrow> Inr (transformed # rest))))
      else cssContents_of P L io root_dir f xs)"

definition onEnd ::
  "(string list \<Rightarrow> string list) \<Rightarrow> path_lib \<Rightarrow> utils \<Rightarrow> libs \<Rightarrow> build \<Rightarrow> options \<Rightarrow> build_result \<Rightarrow> world
     \<Rightarrow> unit outcome \<times> world" where
  "onEnd completion P U L b opts result w =
     (case build_context b of
        None \<Rightarrow> (Inl (TypeError ''Cannot destructure property of build.context''), w)
      | Some ctx \<Rightarrow>
         if \<not> truthy_inject (inject opts) then (Inr (), w)
         else
          (let io = initialOptions b
           in case outdir io of
                None \<Rightarrow> (Inl (TypeError ''The path argument must be of type string''), w)
              | Some od \<Rightarrow>
             (let absOutdir = (if path_isAbsolute P od then od else path_resolve P (buildRoot ctx) od)
              in case entryPoints io of
                   None \<Rightarrow> (Inl (TypeError ''Cannot convert undefined or null to object''), w)
                 | Some eps \<Rightarrow>
                (let entries = entries_of P (buildRoot ctx) eps;
                     outs = (case br_outputs result of None \<Rightarrow> [] | Some os \<Rightarrow> os);
                     outputs = Object_keys outs;
                     entryToInject = entryToInject_of P (buildRoot ctx) entries outs None outputs
                 in case cssContents_of P L io (buildRoot ctx) (files w) outputs of
                      Inl e \<Rightarrow> (Inl e, w)
                    | Inr pushed \<Rightarrow>
                       (let cssContents = completion pushed
                        in case entryToInject of
                             None \<Rightarrow> (Inr (), w)
                           | Some e \<Rightarrow>
                              if e \<noteq> [] \<and> cssContents \<noteq> []
                              then (let entryName = path_basename2 P e (path_extname P e);
                                        allCss = js_join nl cssContents;
                                        container = (case inject opts of
                                                       Some (InjectSelector s) \<Rightarrow> s
                                                     | _ \<Rightarrow> ''head'');
                                        injectedCode = buildInjectCode U container allCss (buildId ctx) opts
                                    in buildJs P L io absOutdir entryName e injectedCode w)
                              else (Inr (), w))))))"

section \<open>Registration of the post-build step in \<^verbatim>\<open>setup\<close>\<close>

text \<open>
  \<^verbatim>\<open>build.onEnd(async (result) => { onEnd(build, options, result); })\<close>: the callback calls
  \<^verbatim>\<open>onEnd\<close> and neither awaits nor returns its promise, so the promise of the callback, which
  is what the host bundler waits for, is fulfilled with \<^verbatim>\<open>undefined\<close> whatever becomes of the
  one of \<^verbatim>\<open>onEnd\<close>.  The world returned is the one after the dropped promise has settled.
\<close>

definition setup_onEnd_callback ::
  "(string list \<Rightarrow> string list) \<Rightarrow> path_lib \<Rightarrow> utils \<Rightarrow> libs \<Rightarrow> build \<Rightarrow> options \<Rightarrow> build_result \<Rightarrow> world
     \<Rightarrow> unit outcome \<times> world" where
  "setup_onEnd_callback completion P U L b opts result w =
     (case onEnd completion P U L b opts result w of (dropped, w') \<Rightarrow> (Inr (), w'))"

section \<open>Predicates of the statements\<close>



text \<open>
  Every result in the cache carries a relative path and the digest of that path.
\<close>

definition digests_ok :: "libs \<Rightarrow> world \<Rightarrow> bool" where
  "digests_ok L w \<longleftrightarrow>
     (\<forall>p e. cache w p = Some e \<longrightarrow>
        (\<exists>rp. relativePathToBuildRoot (lr_pluginData (ce_result e)) = Some rp \<and>
              pd_digest (lr_pluginData (ce_result e)) = Some (load_digest L rp)))"

text \<open>
  The files that a build with named entry points and an output directory writes when it emits,
  for each entry point, nothing but the bundle, its style sheet and their source maps.  That
  \<^verbatim>\<open>esbuild.build\<close> writes no other file is a hypothesis of the statement about
  \<^verbatim>\<open>onEnd\<close>.
\<close>

definition nested_outputs :: "path_lib \<Rightarrow> esbuild_build_options \<Rightarrow> string set" where
  "nested_outputs P bo =
     set (concat (map (\<lambda>(n, t). map (\<lambda>x. bo_outdir bo @ [path_sep P] @ n @ x)
                                    [''.js'', ''.js.map'', ''.css'', ''.css.map''])
                    (bo_entryPoints bo)))"

section \<open>A concrete environment\<close>

text \<open>
  An instance of every parameter, for running the model: POSIX paths without \<^verbatim>\<open>.\<close> and
  \<^verbatim>\<open>..\<close> segments, lodash's case conversions on ASCII identifiers whose words are set
  apart by a capital letter or a separator, a transform that exports a given list of classes
  under the scoped names of the pattern, a hash that is no SHA-256 but has its length, an
  identity minifier, and a nested build that writes the bundle of its one entry point.
\<close>

definition posix_isAbsolute :: "string \<Rightarrow> bool" where
  "posix_isAbsolute p = (case p of [] \<Rightarrow> False | c # cs \<Rightarrow> c = CHR ''/'')"

definition posix_resolve :: "string \<Rightarrow> string \<Rightarrow> string" where
  "posix_resolve base p = (if posix_isAbsolute p then p else base @ ''/'' @ p)"

definition posix_relative :: "string \<Rightarrow> string \<Rightarrow> string" where
  "posix_relative from to = (if prefix (from @ ''/'') to then drop (length from + 1) to else to)"

definition posix_basename :: "string \<Rightarrow> string" where
  "posix_basename p = rev (takeWhile (\<lambda>c. c \<noteq> CHR ''/'') (rev p))"

definition posix_extname :: "string \<Rightarrow> string" where
  "posix_extname p =
     (let b = posix_basename p; e = rev (takeWhile (\<lambda>c. c \<noteq> CHR ''.'') (rev b))
      in if CHR ''.'' \<in> set b \<and> length e + 1 < length b then CHR ''.'' # e else [])"

definition posix_basename2 :: "string \<Rightarrow> string \<Rightarrow> string" where
  "posix_basename2 p ext =
     (let b = posix_basename p
      in if suffix ext b \<and> ext \<noteq> b then take (length b - length ext) b else b)"

definition posix_dirname :: "string \<Rightarrow> string" where
  "posix_dirname p =
     (let d = rev (drop 1 (dropWhile (\<lambda>c. c \<noteq> CHR ''/'') (rev p)))
      in if d = [] then (if posix_isAbsolute p then ''/'' else ''.'') else d)"

definition posix :: path_lib where
  "posix = \<lparr>path_sep = CHR ''/'', path_isAbsolute = posix_isAbsolute, path_resolve = posix_resolve,
     path_relative = posix_relative, path_basename = posix_basename, path_basename2 = posix_basename2,
     path_extname = posix_extname, path_dirname = posix_dirname\<rparr>"

definition is_upper :: "char \<Rightarrow> bool" where
  "is_upper c \<longleftrightarrow> CHR ''A'' \<le> c \<and> c \<le> CHR ''Z''"

definition to_lower :: "char \<Rightarrow> char" where
  "to_lower c = (case map_of (zip ''ABCDEFGHIJKLMNOPQRSTUVWXYZ'' ''abcdefghijklmnopqrstuvwxyz'') c of
                   None \<Rightarrow> c | Some d \<Rightarrow> d)"

definition to_upper :: "char \<Rightarrow> char" where
  "to_upper c = (case map_of (zip ''abcdefghijklmnopqrstuvwxyz'' ''ABCDEFGHIJKLMNOPQRSTUVWXYZ'') c of
                   None \<Rightarrow> c | Some d \<Rightarrow> d)"

fun ascii_words :: "string \<Rightarrow> string \<Rightarrow> string list" where
  "ascii_words cur [] = (if cur = [] then [] else [cur])"
| "ascii_words cur (c # cs) =
     (if \<not> is_alnum c then (if cur = [] then [] else [cur]) @ ascii_words [] cs
      else if is_upper c \<and> cur \<noteq> [] \<and> \<not> is_upper (last cur) then cur # ascii_words [c] cs
      else ascii_words (cur @ [c]) cs)"

definition ascii_kebabCase :: "string \<Rightarrow> string" where
  "ascii_kebabCase s = js_join ''-'' (map (map to_lower) (ascii_words [] s))"

definition ascii_camelCase :: "string \<Rightarrow> string" where
  "ascii_camelCase s =
     (case map (map to_lower) (ascii_words [] s) of
        [] \<Rightarrow> []
      | w # ws \<Rightarrow> w @ concat (map (\<lambda>v. case v of [] \<Rightarrow> [] | c # cs \<Rightarrow> to_upper c # cs) ws))"


definition demo_scoped :: "string \<Rightarrow> string \<Rightarrow> string" where
  "demo_scoped pat local = js_replace ''[hash]'' ''h1'' (js_replace ''[local]'' local pat)"

definition demo_transform :: "string list \<Rightarrow> bundle_config \<Rightarrow> transform_result outcome" where
  "demo_transform classes cfg =
     Inr \<lparr>tr_code = bc_code cfg,
          tr_exports = Some (map (\<lambda>c. (c, \<lparr>ex_name = demo_scoped (pattern (bc_cssModules cfg)) c,
                                            ex_isReferenced = False\<rparr>)) classes),
          tr_map = Some ''{}''\<rparr>"

definition demo_nested_build :: "esbuild_build_options \<Rightarrow> fs \<Rightarrow> unit outcome \<times> fs" where
  "demo_nested_build bo f =
     (case bo_entryPoints bo of
        [(n, tmp)] \<Rightarrow>
          (case f tmp of
             None \<Rightarrow> (Inl (Error ''Could not resolve the entry point''), f)
           | Some code \<Rightarrow> (Inr (), f(bo_outdir bo @ ''/'' @ n @ ''.js'' \<mapsto> ''/* bundle */'' @ code)))
      | _ \<Rightarrow> (Inl (Error ''One entry point expected''), f))"

definition demo_utils :: utils where
  "demo_utils =
     \<lparr>pluginName = ''esbuild-css-modules-plugin'',
      pluginNamespace = ''esbuild-css-modules-plugin-namespace'',
      buildingCssSuffix = ''?esbuild-css-modules-plugin-building'',
      builtCssSuffix = ''?esbuild-css-modules-plugin-built'',
      validateNamedExport = (\<lambda>n. n \<notin> set [''class'', ''default'', ''delete'', ''export'', ''import'', ''new'', ''return'', ''switch'']),
      buildInjectCode = (\<lambda>container css_text bid opts. ''inject('' @ container @ '', '' @ bid @ ''): '' @ css_text),
      getBuildId = (\<lambda>b f. Inr ''b1''),
      getPackageVersion = (\<lambda>b. Some ''1.0.0''),
      getRootDir = (\<lambda>b. case absWorkingDir (initialOptions b) of None \<Rightarrow> ''/proj'' | Some d \<Rightarrow> d),
      getRelativePath = (\<lambda>b p. posix_relative (case absWorkingDir (initialOptions b) of None \<Rightarrow> ''/proj'' | Some d \<Rightarrow> d) p)\<rparr>"

definition demo_libs :: "string list \<Rightarrow> libs" where
  "demo_libs classes =
     \<lparr>lightningcss_transform = demo_transform classes,
      camelCase = ascii_camelCase,
      kebabCase = ascii_kebabCase,
      sha256_hex = (\<lambda>s. take 64 (concat (map (\<lambda>c. [c, CHR ''0'']) s) @ replicate 64 (CHR ''0''))),
      base64 = (\<lambda>s. s),
      prettier_format = None,
      esbuild_transform = (\<lambda>css_text topts. Inr css_text),
      esbuild_build = demo_nested_build,
      host_resolve = (\<lambda>p dir. Inr (posix_resolve dir p))\<rparr>"

definition demo_initialOptions :: initial_options where
  "demo_initialOptions =
     \<lparr>absWorkingDir = Some ''/proj'', charset = None, outdir = Some ''out'', sourceRoot = None,
      sourcemap = None, sourcesContent = None,
      entryPoints = Some (EntryArray [EntryString ''src/a.js'', EntryString ''src/b.js'']),
      minify = None, logLevel = None, format = Some ''esm'', target = None, external = None,
      publicPath = None, metafile = None, watch = Some (WatchBool True)\<rparr>"

definition demo_options :: options where
  "demo_options =
     \<lparr>v2CssModulesOption = None, generateTsFile = None, inject = Some (InjectBool True),
      opt_watch = None, root = None\<rparr>"

definition demo_world :: world where
  "demo_world =
     \<lparr>files = [''/proj/src/button.module.css'' \<mapsto> ''.fooBar{color:red}.secondary-text{color:blue}.primary{}''],
      cache = Map.empty, compiler_calls = 0\<rparr>"

definition demo_build0 :: build where
  "demo_build0 = \<lparr>initialOptions = demo_initialOptions, build_context = None\<rparr>"

definition demo_build :: build where
  "demo_build = fst (snd (prepareBuild demo_utils demo_build0 demo_options demo_world))"

definition demo_classes :: "string list" where
  "demo_classes = [''secondary-text'', ''primary'', ''fooBar'']"

definition demo_path :: string where
  "demo_path = ''/proj/src/button.module.css''"

text \<open>
  The arguments of the load of the demo style sheet, as the resolver hands them on; the same
  build on another machine, with another working directory; the build without watch mode.
  The cache of the demo compares whole contents: its digest is the content itself.
\<close>

definition content_itself :: "string \<Rightarrow> string" where
  "content_itself s = s"

definition demo_args :: on_load_args where
  "demo_args =
     \<lparr>la_path = ''src/button.module.css'',
      la_suffix = Some ''?esbuild-css-modules-plugin-building'',
      la_pluginData = Some (empty_pluginData\<lparr>relativePathToBuildRoot := Some ''src/button.module.css''\<rparr>)\<rparr>"

definition ci_world :: world where
  "ci_world =
     \<lparr>files = [''/home/ci/work/src/button.module.css'' \<mapsto> ''.fooBar{color:red}.secondary-text{color:blue}.primary{}''],
      cache = Map.empty, compiler_calls = 0\<rparr>"

definition ci_build :: build where
  "ci_build =
     fst (snd (prepareBuild demo_utils
       \<lparr>initialOptions = demo_initialOptions\<lparr>absWorkingDir := Some ''/home/ci/work''\<rparr>, build_context = None\<rparr>
       demo_options ci_world))"

definition nowatch_build :: build where
  "nowatch_build = demo_build\<lparr>initialOptions := (initialOptions demo_build)\<lparr>watch := None\<rparr>\<rparr>"

text \<open>
  A finished build of two entry points, each importing a style sheet of its own: the
  metafile lists the two bundles and the two style sheets, and the files are on disk.
\<close>

definition demo_result :: build_result where
  "demo_result =
     \<lparr>br_outputs = Some
        [(''out/a.css'', \<lparr>mo_entryPoint = None, mo_bytes = 15\<rparr>),
         (''out/a.js'', \<lparr>mo_entryPoint = Some ''src/a.js'', mo_bytes = 19\<rparr>),
         (''out/b.css'', \<lparr>mo_entryPoint = None, mo_bytes = 16\<rparr>),
         (''out/b.js'', \<lparr>mo_entryPoint = Some ''src/b.js'', mo_bytes = 19\<rparr>)]\<rparr>"

definition demo_outputs_world :: world where
  "demo_outputs_world =
     \<lparr>files = [''/proj/out/a.js'' \<mapsto> ''export const a = 1;'',
               ''/proj/out/a.css'' \<mapsto> ''.a_x{color:red}'',
               ''/proj/out/b.js'' \<mapsto> ''export const b = 2;'',
               ''/proj/out/b.css'' \<mapsto> ''.b_y{color:blue}''],
      cache = Map.empty, compiler_calls = 0\<rparr>"

text \<open>A nested build that fails, and the options without injection.\<close>

definition failing_libs :: libs where
  "failing_libs = (demo_libs [])\<lparr>esbuild_build := (\<lambda>bo f. (Inl (Error ''Build failed with 1 error''), f))\<rparr>"


section \<open>Properties of the compiler adapter\<close>

lemma set_insert_index: "set (insert_index k v obj) = insert (k, v) (set obj)"
  by (induction obj) (auto split: if_splits)

lemma set_obj_set_fresh:
  "k \<notin> set (map fst obj) \<Longrightarrow> set (obj_set k v obj) = insert (k, v) (set obj)"
  by (simp add: obj_set_def set_insert_index)

lemma keys_obj_set_fresh:
  "k \<notin> set (map fst obj) \<Longrightarrow> set (map fst (obj_set k v obj)) = insert k (set (map fst obj))"
  using set_obj_set_fresh[of k obj v] by (metis fst_conv image_insert set_map)

lemma foldl_assign_set:
  "distinct ks \<Longrightarrow> set ks \<inter> set (map fst acc) = {} \<Longrightarrow> set ks \<subseteq> dom m \<Longrightarrow>
   set (foldl (\<lambda>json k. case m k of Some e \<Rightarrow> obj_set k (ex_name e) json | None \<Rightarrow> json) acc ks)
     = set acc \<union> {(k, ex_name e) | k e. k \<in> set ks \<and> m k = Some e}"
proof (induction ks arbitrary: acc)
  case Nil
  then show ?case by simp
next
  case (Cons k ks)
  from Cons.prems obtain e where e: "m k = Some e" by auto
  have fresh: "k \<notin> set (map fst acc)" using Cons.prems by auto
  have disj: "set ks \<inter> set (map fst (obj_set k (ex_name e) acc)) = {}"
    using Cons.prems keys_obj_set_fresh[OF fresh, of "ex_name e"] by auto
  have "set (foldl (\<lambda>json k. case m k of Some e \<Rightarrow> obj_set k (ex_name e) json | None \<Rightarrow> json)
              (obj_set k (ex_name e) acc) ks)
        = set (obj_set k (ex_name e) acc) \<union> {(k, ex_name e) | k e. k \<in> set ks \<and> m k = Some e}"
    using Cons.IH[OF _ disj] Cons.prems by auto
  then show ?case using e set_obj_set_fresh[OF fresh, of "ex_name e"] by auto
qed

lemma set_cssModulesJSON_of:
  assumes "distinct (map fst ex)"
  shows "set (cssModulesJSON_of ex) = {(k, ex_name e) | k e. (k, e) \<in> set ex}"
proof -
  have d: "distinct (sort (map fst ex))" using assms by simp
  have s: "set (sort (map fst ex)) \<subseteq> dom (map_of ex)" by (auto simp: dom_map_of_conv_image_fst)
  have "set (cssModulesJSON_of ex) = {(k, ex_name e) | k e. k \<in> set (sort (map fst ex)) \<and> map_of ex k = Some e}"
    unfolding cssModulesJSON_of_def Object_keys_def
    using foldl_assign_set[OF d _ s, of "[]"] by simp
  also have "\<dots> = {(k, ex_name e) | k e. (k, e) \<in> set ex}"
    using assms by (auto dest: map_of_SomeD intro: map_of_is_SomeI simp: rev_image_eqI)
  finally show ?thesis .
qed



lemma namedExportLines_reserved:
  "(k, v) \<in> set xs \<Longrightarrow> \<not> validateNamedExport U (camelCase L k) \<Longrightarrow>
   \<exists>k' v'. (k', v') \<in> set xs \<and> \<not> validateNamedExport U (camelCase L k') \<and>
     namedExportLines U L fullPath xs = Inl (Error (reservedMessage (camelCase L k') fullPath))"
proof (induction xs)
  case Nil
  then show ?case by simp
next
  case (Cons x xs)
  obtain a c where x: "x = (a, c)" by (cases x)
  show ?case
  proof (cases "validateNamedExport U (camelCase L a)")
    case False
    then show ?thesis using x by (intro exI[of _ a] exI[of _ c]) (simp add: Let_def)
  next
    case True
    with Cons.prems x have "(k, v) \<in> set xs" by auto
    from Cons.IH[OF this Cons.prems(2)] obtain k' v' where
      "(k', v') \<in> set xs" "\<not> validateNamedExport U (camelCase L k')"
      "namedExportLines U L fullPath xs = Inl (Error (reservedMessage (camelCase L k') fullPath))"
      by blast
    then show ?thesis using True x by (intro exI[of _ k'] exI[of _ v']) (simp add: Let_def)
  qed
qed

lemma buildCssModulesJs_InrD:
  assumes "buildCssModulesJs P U L fullPath opts b w = (Inr c, w')"
  shows "\<exists>ctx originCss tr ls.
     build_context b = Some ctx \<and> readFile fullPath (files w) = Inr originCss \<and>
     lightningcss_transform L (bundleConfig P ctx opts fullPath originCss) = Inr tr \<and>
     namedExportLines U L fullPath (Object_entries (cssModulesJSON_of (exports_of tr))) = Inr ls \<and>
     c = \<lparr>c_js = jsText P U L opts (buildId ctx) fullPath (cssModulesJSON_of (exports_of tr)) ls,
          c_css = cssWithSourceMap L tr, c_originCss = originCss, c_exports = exports_of tr,
          c_resolveDir = path_dirname P fullPath\<rparr>"
proof (cases "build_context b")
  case None
  with assms show ?thesis by (simp add: buildCssModulesJs_def Let_def)
next
  case (Some ctx)
  show ?thesis
  proof (cases "readFile fullPath (files w)")
    case (Inl e)
    with assms Some show ?thesis by (simp add: buildCssModulesJs_def Let_def)
  next
    case (Inr originCss)
    show ?thesis
    proof (cases "lightningcss_transform L (bundleConfig P ctx opts fullPath originCss)")
      case (Inl e)
      with assms Some Inr show ?thesis by (simp add: buildCssModulesJs_def Let_def)
    next
      case tr: (Inr tr)
      show ?thesis
      proof (cases "namedExportLines U L fullPath (Object_entries (cssModulesJSON_of (exports_of tr)))")
        case (Inl e)
        with assms Some Inr tr show ?thesis by (simp add: buildCssModulesJs_def Let_def)
      next
        case ls: (Inr ls)
        from assms Some Inr tr ls show ?thesis
          by (simp add: buildCssModulesJs_def Let_def split: if_splits sum.splits option.splits)
      qed
    qed
  qed
qed





















lemma sublist_reservedMessage: "sublist fullPath (reservedMessage n fullPath)"
proof -
  have "sublist fullPath ((''the class name '' @ dq @ n @ dq @ '' in file '') @ fullPath @
     '' is a reserved keyword in javascript, please change it to someother word to avoid potential errors'')"
    by (rule sublist_appendI)
  then show ?thesis by (simp add: reservedMessage_def)
qed

text \<open>
  Claim C4.  When the file is read, the transform returns, and its export table has a class
  whose camelCase form \<^verbatim>\<open>validateNamedExport\<close> refuses, the compiler adapter throws an
  \<^verbatim>\<open>Error\<close> whose message holds the path of the file (and the camelCase form of a refused
  class of the table); nothing is returned and no file is written.
\<close>

theorem reserved_class_name_fails_naming_file:
  assumes "build_context b = Some ctx"
    and "readFile fullPath (files w) = Inr originCss"
    and "lightningcss_transform L (bundleConfig P ctx opts fullPath originCss) = Inr tr"
    and "distinct (map fst (exports_of tr))"
    and "(originClass, e) \<in> set (exports_of tr)"
    and "\<not> validateNamedExport U (camelCase L originClass)"
  shows "\<exists>k msg. k \<in> set (Object_keys (exports_of tr)) \<and> \<not> validateNamedExport U (camelCase L k) \<and>
           msg = reservedMessage (camelCase L k) fullPath \<and> sublist fullPath msg \<and>
           buildCssModulesJs P U L fullPath opts b w =
             (Inl (Error msg), w\<lparr>compiler_calls := Suc (compiler_calls w)\<rparr>)"
proof -
  let ?json = "cssModulesJSON_of (exports_of tr)"
  have mem: "(originClass, ex_name e) \<in> set (Object_entries ?json)"
    using set_cssModulesJSON_of[OF assms(4)] assms(5) by (auto simp: Object_entries_def)
  from namedExportLines_reserved[OF mem assms(6), of fullPath] obtain k' v' where
    k: "(k', v') \<in> set (Object_entries ?json)" "\<not> validateNamedExport U (camelCase L k')"
       "namedExportLines U L fullPath (Object_entries ?json)
          = Inl (Error (reservedMessage (camelCase L k') fullPath))"
    by blast
  have "k' \<in> set (Object_keys (exports_of tr))"
    using k(1) set_cssModulesJSON_of[OF assms(4)] by (force simp: Object_entries_def Object_keys_def)
  moreover have "buildCssModulesJs P U L fullPath opts b w =
             (Inl (Error (reservedMessage (camelCase L k') fullPath)),
              w\<lparr>compiler_calls := Suc (compiler_calls w)\<rparr>)"
    using assms(1,2,3) k(3) by (simp add: buildCssModulesJs_def Let_def)
  ultimately show ?thesis using k(2) sublist_reservedMessage by blast
qed

theorem reserved_class_name_fails_naming_file_witness:
  "\<not> validateNamedExport demo_utils (camelCase (demo_libs [''primary'', ''class'']) ''class'') \<and>
   (\<exists>msg. fst (buildCssModulesJs posix demo_utils (demo_libs [''primary'', ''class'']) demo_path demo_options
                 demo_build demo_world) = Inl (Error msg) \<and>
          sublist demo_path msg)"
proof -
  let ?L = "demo_libs [''primary'', ''class'']"
  let ?css = "''.fooBar{color:red}.secondary-text{color:blue}.primary{}''"
  have "build_context demo_build \<noteq> None" by code_simp
  then obtain ctx where ctx: "build_context demo_build = Some ctx" by blast
  let ?cfg = "bundleConfig posix ctx demo_options demo_path ?css"
  let ?tr = "projr (lightningcss_transform ?L ?cfg)"
  have rd: "readFile demo_path (files demo_world) = Inr ?css" by code_simp
  have tr: "lightningcss_transform ?L ?cfg = Inr ?tr"
    by (simp add: demo_libs_def demo_transform_def)
  have ex: "exports_of ?tr = map (\<lambda>c. (c, \<lparr>ex_name = demo_scoped (pattern (bc_cssModules ?cfg)) c,
                                            ex_isReferenced = False\<rparr>)) [''primary'', ''class'']"
    by (simp add: demo_libs_def demo_transform_def exports_of_def)
  have d: "distinct (map fst (exports_of ?tr))" unfolding ex by simp
  have m: "(''class'', \<lparr>ex_name = demo_scoped (pattern (bc_cssModules ?cfg)) ''class'', ex_isReferenced = False\<rparr>)
             \<in> set (exports_of ?tr)" unfolding ex by simp
  have v: "\<not> validateNamedExport demo_utils (camelCase ?L ''class'')" by code_simp
  from reserved_class_name_fails_naming_file[OF ctx rd tr d m v] v show ?thesis by auto
qed










section \<open>Properties of the loader and of the preparation\<close>

text \<open>
  Evaluation at the concrete environment: an outcome that is known to be a value, or an
  error, names both parts of a result.
\<close>

lemma pair_of_Inr: "\<not> isl (fst X) \<Longrightarrow> X = (Inr (projr (fst X)), snd X)"
  by (cases X; cases "fst X") auto

lemma pair_of_Inl: "isl (fst X) \<Longrightarrow> X = (Inl (projl (fst X)), snd X)"
  by (cases X; cases "fst X") auto

lemma demo_ctx: "build_context demo_build = Some (the (build_context demo_build))"
proof -
  have "build_context demo_build \<noteq> None" by code_simp
  then show ?thesis by simp
qed

lemma ci_ctx: "build_context ci_build = Some (the (build_context ci_build))"
proof -
  have "build_context ci_build \<noteq> None" by code_simp
  then show ?thesis by simp
qed

lemma buildCssModulesJs_world:
  assumes "buildCssModulesJs P U L fullPath opts b w = (res, w1)"
  shows "cache w1 = cache w \<and> compiler_calls w1 = Suc (compiler_calls w) \<and>
         (\<forall>e. res = Inl e \<longrightarrow> files w1 = files w)"
proof (cases "build_context b")
  case None
  with assms show ?thesis by (auto simp: buildCssModulesJs_def Let_def)
next
  case (Some ctx)
  show ?thesis
  proof (cases "readFile fullPath (files w)")
    case (Inl e)
    with assms Some show ?thesis by (auto simp: buildCssModulesJs_def Let_def)
  next
    case (Inr originCss)
    show ?thesis
    proof (cases "lightningcss_transform L (bundleConfig P ctx opts fullPath originCss)")
      case (Inl e)
      with assms Some Inr show ?thesis by (auto simp: buildCssModulesJs_def Let_def)
    next
      case tr: (Inr tr)
      show ?thesis
      proof (cases "namedExportLines U L fullPath (Object_entries (cssModulesJSON_of (exports_of tr)))")
        case (Inl e)
        with assms Some Inr tr show ?thesis by (auto simp: buildCssModulesJs_def Let_def)
      next
        case ls: (Inr ls)
        from assms Some Inr tr ls show ?thesis
          by (auto simp: buildCssModulesJs_def Let_def split: if_splits sum.splits)
      qed
    qed
  qed
qed

lemma buildCssModulesJs_cache_irrelevant:
  "buildCssModulesJs P U L fullPath opts b (w\<lparr>cache := c\<rparr>) =
     (fst (buildCssModulesJs P U L fullPath opts b w),
      (snd (buildCssModulesJs P U L fullPath opts b w))\<lparr>cache := c\<rparr>)"
proof (cases "build_context b")
  case None
  then show ?thesis by (simp add: buildCssModulesJs_def Let_def)
next
  case (Some ctx)
  show ?thesis
  proof (cases "readFile fullPath (files w)")
    case (Inl e)
    with Some show ?thesis by (simp add: buildCssModulesJs_def Let_def)
  next
    case (Inr originCss)
    show ?thesis
    proof (cases "lightningcss_transform L (bundleConfig P ctx opts fullPath originCss)")
      case (Inl e)
      with Some Inr show ?thesis by (simp add: buildCssModulesJs_def Let_def)
    next
      case tr: (Inr tr)
      show ?thesis
      proof (cases "namedExportLines U L fullPath (Object_entries (cssModulesJSON_of (exports_of tr)))")
        case (Inl e)
        with Some Inr tr show ?thesis by (simp add: buildCssModulesJs_def Let_def)
      next
        case ls: (Inr ls)
        from Some Inr tr ls show ?thesis
          by (simp add: buildCssModulesJs_def Let_def split: if_splits sum.splits)
      qed
    qed
  qed
qed

lemma buildCssModulesJs_originCss:
  assumes "buildCssModulesJs P U L fullPath opts b w = (Inr c, w1)"
  shows "files w fullPath = Some (c_originCss c)"
proof -
  from buildCssModulesJs_InrD[OF assms] obtain originCss where
    "readFile fullPath (files w) = Inr originCss" "c_originCss c = originCss" by auto
  then show ?thesis by (auto simp: readFile_def split: option.splits)
qed

lemma load_hit:
  assumes "build_context b = Some ctx" "useCache b opts"
    and "BuildCache_get cd (load_absPath P ctx args) w = Some r"
  shows "onLoadModulesCss cd P U L b opts args w = (Inr r, w)"
  using assms by (simp add: onLoadModulesCss_def Let_def)

lemma load_miss:
  assumes "build_context b = Some ctx"
    and "la_pluginData args = Some d" and "relativePathToBuildRoot d = Some rp"
    and "\<not> useCache b opts \<or> BuildCache_get cd (load_absPath P ctx args) w = None"
    and "buildCssModulesJs P U L (load_absPath P ctx args) opts b w = (res, w1)"
  shows "onLoadModulesCss cd P U L b opts args w =
     (case res of
        Inl e \<Rightarrow> (Inl e, w1)
      | Inr c \<Rightarrow>
         (let result = \<lparr>lr_pluginName = pluginName U, lr_resolveDir = c_resolveDir c,
                         lr_pluginData = d\<lparr>pd_css := Some (c_css c), pd_exports := Some (c_exports c),
                                            pd_digest := Some (load_digest L rp)\<rparr>,
                         lr_contents = c_js c, lr_loader = ''js''\<rparr>
          in (Inr result,
              if useCache b opts
              then BuildCache_set cd (load_absPath P ctx args) result (c_originCss c) w1 else w1)))"
  using assms by (cases res) (auto simp: onLoadModulesCss_def Let_def)

lemma load_calls:
  assumes "build_context b = Some ctx"
    and "la_pluginData args = Some d" and "relativePathToBuildRoot d = Some rp"
    and "\<not> useCache b opts \<or> BuildCache_get cd (load_absPath P ctx args) w = None"
  shows "compiler_calls (snd (onLoadModulesCss cd P U L b opts args w)) = Suc (compiler_calls w)"
proof -
  obtain res w1 where r: "buildCssModulesJs P U L (load_absPath P ctx args) opts b w = (res, w1)"
    by (cases "buildCssModulesJs P U L (load_absPath P ctx args) opts b w")
  from load_miss[OF assms r] buildCssModulesJs_world[OF r] show ?thesis
    by (cases res) (simp_all add: Let_def BuildCache_set_def)
qed

lemma load_fills_cache:
  assumes ctx: "build_context b = Some ctx" and uc: "useCache b opts"
    and first: "onLoadModulesCss cd P U L b opts args w = (Inr r, w1)"
  shows "\<exists>content. files w (load_absPath P ctx args) = Some content \<and>
           cache w1 (load_absPath P ctx args) = Some \<lparr>ce_result = r, ce_contentDigest = cd content\<rparr>"
proof (cases "BuildCache_get cd (load_absPath P ctx args) w")
  case (Some r')
  from load_hit[OF ctx uc Some] first have eq: "r' = r" "w1 = w" by simp_all
  from Some obtain e content where
    "cache w (load_absPath P ctx args) = Some e" "files w (load_absPath P ctx args) = Some content"
    "cd content = ce_contentDigest e" "ce_result e = r'"
    by (auto simp: BuildCache_get_def split: option.splits if_splits)
  then show ?thesis using eq by auto
next
  case None
  show ?thesis
  proof (cases "relativePathToBuildRoot (case la_pluginData args of None \<Rightarrow> empty_pluginData | Some d \<Rightarrow> d)")
    case n: None
    with first ctx uc None show ?thesis by (simp add: onLoadModulesCss_def Let_def)
  next
    case (Some rp)
    obtain res w0 where r: "buildCssModulesJs P U L (load_absPath P ctx args) opts b w = (res, w0)"
      by (cases "buildCssModulesJs P U L (load_absPath P ctx args) opts b w")
    show ?thesis
    proof (cases res)
      case (Inl e)
      with first ctx uc None Some r show ?thesis by (simp add: onLoadModulesCss_def Let_def)
    next
      case (Inr c)
      from buildCssModulesJs_originCss r Inr have "files w (load_absPath P ctx args) = Some (c_originCss c)"
        by blast
      moreover from first ctx uc None Some r Inr
      have "cache w1 (load_absPath P ctx args) = Some \<lparr>ce_result = r, ce_contentDigest = cd (c_originCss c)\<rparr>"
        by (auto simp: onLoadModulesCss_def Let_def BuildCache_set_def)
      ultimately show ?thesis by blast
    qed
  qed
qed

text \<open>
  Claim C10.  When a load reaches the compiler adapter (no result comes from the cache, and
  a relative path is attached) and the adapter throws, the load throws the same error, and the
  cache and the files are as they were before the load: the store into the cache comes after
  the adapter has returned.
\<close>

theorem compile_failure_leaves_cache:
  assumes "build_context b = Some ctx"
    and "la_pluginData args = Some d" and "relativePathToBuildRoot d = Some rp"
    and "\<not> useCache b opts \<or> BuildCache_get cd (load_absPath P ctx args) w = None"
    and "buildCssModulesJs P U L (load_absPath P ctx args) opts b w = (Inl e, w1)"
  shows "onLoadModulesCss cd P U L b opts args w = (Inl e, w1) \<and> cache w1 = cache w \<and> files w1 = files w"
proof -
  have "onLoadModulesCss cd P U L b opts args w = (Inl e, w1)"
    using assms by (auto simp: onLoadModulesCss_def Let_def)
  then show ?thesis using buildCssModulesJs_world[OF assms(5)] by simp
qed

theorem compile_failure_leaves_cache_witness:
  "isl (fst (onLoadModulesCss content_itself posix demo_utils (demo_libs [''primary'', ''class'']) demo_build demo_options
              demo_args demo_world)) \<and>
   cache (snd (onLoadModulesCss content_itself posix demo_utils (demo_libs [''primary'', ''class'']) demo_build demo_options
              demo_args demo_world)) = cache demo_world"
proof -
  let ?L = "demo_libs [''primary'', ''class'']"
  let ?ctx = "the (build_context demo_build)"
  let ?d = "empty_pluginData\<lparr>relativePathToBuildRoot := Some ''src/button.module.css''\<rparr>"
  let ?Y = "buildCssModulesJs posix demo_utils ?L (load_absPath posix ?ctx demo_args) demo_options demo_build demo_world"
  have d: "la_pluginData demo_args = Some ?d" by (simp add: demo_args_def)
  have rp: "relativePathToBuildRoot ?d = Some ''src/button.module.css''" by simp
  have miss: "\<not> useCache demo_build demo_options \<or>
              BuildCache_get content_itself (load_absPath posix ?ctx demo_args) demo_world = None"
    by (simp add: BuildCache_get_def demo_world_def)
  have "isl (fst ?Y)" by code_simp
  then have fail: "?Y = (Inl (projl (fst ?Y)), snd ?Y)" by (rule pair_of_Inl)
  from compile_failure_leaves_cache[OF demo_ctx d rp miss fail] show ?thesis by simp
qed

lemma load_no_cache_world:
  assumes "\<not> useCache b opts"
  shows "cache (snd (onLoadModulesCss cd P U L b opts args w)) = cache w"
proof (cases "build_context b")
  case None
  then show ?thesis by (simp add: onLoadModulesCss_def)
next
  case (Some ctx)
  show ?thesis
  proof (cases "relativePathToBuildRoot (case la_pluginData args of None \<Rightarrow> empty_pluginData | Some d \<Rightarrow> d)")
    case None
    with Some assms show ?thesis by (simp add: onLoadModulesCss_def Let_def)
  next
    case rp: (Some rp)
    obtain res w0 where r: "buildCssModulesJs P U L (load_absPath P ctx args) opts b w = (res, w0)"
      by (cases "buildCssModulesJs P U L (load_absPath P ctx args) opts b w")
    from buildCssModulesJs_world[OF r] Some rp assms r show ?thesis
      by (cases res) (simp_all add: onLoadModulesCss_def Let_def)
  qed
qed

lemma load_no_cache_result:
  assumes "\<not> useCache b opts"
  shows "fst (onLoadModulesCss cd P U L b opts args (w\<lparr>cache := c\<rparr>))
       = fst (onLoadModulesCss cd P U L b opts args w)"
proof (cases "build_context b")
  case None
  then show ?thesis by (simp add: onLoadModulesCss_def)
next
  case (Some ctx)
  show ?thesis
  proof (cases "relativePathToBuildRoot (case la_pluginData args of None \<Rightarrow> empty_pluginData | Some d \<Rightarrow> d)")
    case None
    with Some assms show ?thesis by (simp add: onLoadModulesCss_def Let_def)
  next
    case rp: (Some rp)
    obtain res w0 where r: "buildCssModulesJs P U L (load_absPath P ctx args) opts b w = (res, w0)"
      by (cases "buildCssModulesJs P U L (load_absPath P ctx args) opts b w")
    from Some rp assms r show ?thesis
      by (cases res) (simp_all add: onLoadModulesCss_def Let_def buildCssModulesJs_cache_irrelevant)
  qed
qed

text \<open>
  Claim C1.  With \<open>useCache\<close> (watch mode), after a load of a path has returned, a load
  of the same path while the file has the content the first load saw returns the same result
  and leaves the store as it is, the counter of the adapter included; the first load ran the
  adapter once when the cache had no entry for the path.  When the file has a content of
  another digest, the next load runs the adapter once more.  Without \<open>useCache\<close> a load
  leaves the cache as it is, and its outcome is the same whatever the cache holds.
\<close>

theorem cache_hit_once_changed_recompiles_no_watch_bypasses:
  assumes ctx: "build_context b = Some ctx"
    and uc: "useCache b opts"
    and pd: "la_pluginData args = Some d" "relativePathToBuildRoot d = Some rp"
    and first: "onLoadModulesCss cd P U L b opts args w = (Inr r, w1)"
    and content: "files w (load_absPath P ctx args) = Some content"
    and same: "cache w2 = cache w1" "files w2 (load_absPath P ctx args) = Some content"
    and changed: "cache w3 = cache w1" "files w3 (load_absPath P ctx args) = Some content'"
                 "cd content' \<noteq> cd content"
    and nouc: "\<not> useCache bn optsn"
  shows "onLoadModulesCss cd P U L b opts args w2 = (Inr r, w2)
       \<and> (cache w (load_absPath P ctx args) = None \<longrightarrow> compiler_calls w1 = Suc (compiler_calls w))
       \<and> compiler_calls (snd (onLoadModulesCss cd P U L b opts args w3)) = Suc (compiler_calls w3)
       \<and> cache (snd (onLoadModulesCss cd P U L bn optsn argsn wn)) = cache wn
       \<and> fst (onLoadModulesCss cd P U L bn optsn argsn (wn\<lparr>cache := c\<rparr>))
           = fst (onLoadModulesCss cd P U L bn optsn argsn wn)"
proof -
  let ?p = "load_absPath P ctx args"
  from load_fills_cache[OF ctx uc first] content
  have filled: "cache w1 ?p = Some \<lparr>ce_result = r, ce_contentDigest = cd content\<rparr>" by auto
  have "BuildCache_get cd ?p w2 = Some r"
    using filled same by (simp add: BuildCache_get_def)
  then have 1: "onLoadModulesCss cd P U L b opts args w2 = (Inr r, w2)"
    by (rule load_hit[OF ctx uc])
  have 2: "cache w ?p = None \<longrightarrow> compiler_calls w1 = Suc (compiler_calls w)"
  proof
    assume "cache w ?p = None"
    then have "BuildCache_get cd ?p w = None" by (simp add: BuildCache_get_def)
    then have "compiler_calls (snd (onLoadModulesCss cd P U L b opts args w)) = Suc (compiler_calls w)"
      using load_calls[OF ctx pd] by blast
    then show "compiler_calls w1 = Suc (compiler_calls w)" using first by simp
  qed
  have "BuildCache_get cd ?p w3 = None"
    using filled changed by (simp add: BuildCache_get_def)
  then have 3: "compiler_calls (snd (onLoadModulesCss cd P U L b opts args w3)) = Suc (compiler_calls w3)"
    using load_calls[OF ctx pd] by blast
  from 1 2 3 load_no_cache_world[OF nouc] load_no_cache_result[OF nouc] show ?thesis by blast
qed

theorem cache_hit_once_changed_recompiles_no_watch_bypasses_witness:
  "useCache demo_build demo_options \<and> \<not> useCache nowatch_build demo_options \<and>
   (let L = demo_libs demo_classes;
        X = onLoadModulesCss content_itself posix demo_utils L demo_build demo_options demo_args demo_world
    in \<not> isl (fst X) \<and>
       onLoadModulesCss content_itself posix demo_utils L demo_build demo_options demo_args (snd X) = X \<and>
       compiler_calls (snd X) = Suc (compiler_calls demo_world) \<and>
       compiler_calls (snd (onLoadModulesCss content_itself posix demo_utils L demo_build demo_options demo_args
          ((snd X)\<lparr>files := (files (snd X))(''/proj/src/button.module.css'' \<mapsto> ''.changed{}'')\<rparr>)))
         = Suc (compiler_calls (snd X)) \<and>
       cache (snd (onLoadModulesCss content_itself posix demo_utils L nowatch_build demo_options demo_args demo_world))
         = cache demo_world)"
proof -
  let ?L = "demo_libs demo_classes"
  let ?ctx = "the (build_context demo_build)"
  let ?d = "empty_pluginData\<lparr>relativePathToBuildRoot := Some ''src/button.module.css''\<rparr>"
  let ?X = "onLoadModulesCss content_itself posix demo_utils ?L demo_build demo_options demo_args demo_world"
  let ?css = "''.fooBar{color:red}.secondary-text{color:blue}.primary{}''"
  let ?w3 = "(snd ?X)\<lparr>files := (files (snd ?X))(''/proj/src/button.module.css'' \<mapsto> ''.changed{}'')\<rparr>"
  have uc: "useCache demo_build demo_options" by code_simp
  have nouc: "\<not> useCache nowatch_build demo_options" by code_simp
  have d: "la_pluginData demo_args = Some ?d" by (simp add: demo_args_def)
  have rp: "relativePathToBuildRoot ?d = Some ''src/button.module.css''" by simp
  have ok: "\<not> isl (fst ?X)" by code_simp
  then have first: "?X = (Inr (projr (fst ?X)), snd ?X)" by (rule pair_of_Inr)
  have p: "load_absPath posix ?ctx demo_args = ''/proj/src/button.module.css''" by code_simp
  have content: "files demo_world (load_absPath posix ?ctx demo_args) = Some ?css" by code_simp
  have same: "files (snd ?X) (load_absPath posix ?ctx demo_args) = Some ?css" by code_simp
  have ch: "files ?w3 (load_absPath posix ?ctx demo_args) = Some ''.changed{}''" by (simp add: p)
  have ne: "content_itself ''.changed{}'' \<noteq> content_itself ?css" by (simp add: content_itself_def)
  have fresh: "cache demo_world (load_absPath posix ?ctx demo_args) = None" by (simp add: demo_world_def)
  from cache_hit_once_changed_recompiles_no_watch_bypasses
         [OF demo_ctx uc d rp first content refl same _ ch ne nouc,
          where argsn = demo_args and wn = demo_world and c = Map.empty]
       fresh first ok uc nouc
  show ?thesis by (simp add: Let_def)
qed

lemma load_digest_64: "length (sha256_hex L rp) = 64 \<Longrightarrow> load_digest L rp = sha256_hex L rp"
  by (simp add: load_digest_def js_slice_def Let_def)

lemma load_result_digest:
  assumes inv: "digests_ok L w" and ld: "onLoadModulesCss cd P U L b opts args w = (Inr r, w')"
  shows "(\<exists>rp. relativePathToBuildRoot (lr_pluginData r) = Some rp \<and>
              pd_digest (lr_pluginData r) = Some (load_digest L rp)) \<and> digests_ok L w'"
proof (cases "build_context b")
  case None
  with ld show ?thesis by (simp add: onLoadModulesCss_def)
next
  case ctx: (Some ctx)
  let ?p = "load_absPath P ctx args"
  show ?thesis
  proof (cases "useCache b opts \<and> BuildCache_get cd ?p w \<noteq> None")
    case True
    then obtain r' where g: "BuildCache_get cd ?p w = Some r'" by blast
    from load_hit[OF ctx _ g] True ld have eq: "r' = r" "w' = w" by simp_all
    from g obtain e where "cache w ?p = Some e" "ce_result e = r'"
      by (auto simp: BuildCache_get_def split: option.splits if_splits)
    with inv eq show ?thesis unfolding digests_ok_def by blast
  next
    case miss: False
    then have cn: "(if useCache b opts then BuildCache_get cd ?p w else None) = None" by auto
    show ?thesis
    proof (cases "la_pluginData args")
      case None
      with ld ctx cn show ?thesis
        by (simp add: onLoadModulesCss_def Let_def empty_pluginData_def)
    next
      case d: (Some d)
      show ?thesis
      proof (cases "relativePathToBuildRoot d")
        case None
        with ld ctx cn d show ?thesis by (simp add: onLoadModulesCss_def Let_def)
      next
        case rp: (Some rp)
        obtain res w0 where c: "buildCssModulesJs P U L ?p opts b w = (res, w0)"
          by (cases "buildCssModulesJs P U L ?p opts b w")
        from miss have m: "\<not> useCache b opts \<or> BuildCache_get cd ?p w = None" by blast
        note lm = load_miss[OF ctx d rp m c]
        show ?thesis
        proof (cases res)
          case (Inl e)
          with lm ld show ?thesis by simp
        next
          case (Inr cm)
          let ?res = "\<lparr>lr_pluginName = pluginName U, lr_resolveDir = c_resolveDir cm,
                         lr_pluginData = d\<lparr>pd_css := Some (c_css cm), pd_exports := Some (c_exports cm),
                                            pd_digest := Some (load_digest L rp)\<rparr>,
                         lr_contents = c_js cm, lr_loader = ''js''\<rparr>"
          from lm ld Inr have r: "r = ?res"
            and w': "w' = (if useCache b opts then BuildCache_set cd ?p ?res (c_originCss cm) w0 else w0)"
            by (simp_all add: Let_def)
          have r_ok: "relativePathToBuildRoot (lr_pluginData r) = Some rp \<and>
              pd_digest (lr_pluginData r) = Some (load_digest L rp)"
            using r rp by simp
          have c0: "cache w0 = cache w" using buildCssModulesJs_world[OF c] by simp
          have "digests_ok L w'"
            unfolding digests_ok_def
          proof (intro allI impI)
            fix q e assume q: "cache w' q = Some e"
            show "\<exists>rp. relativePathToBuildRoot (lr_pluginData (ce_result e)) = Some rp \<and>
              pd_digest (lr_pluginData (ce_result e)) = Some (load_digest L rp)"
            proof (cases "useCache b opts \<and> q = ?p")
              case True
              with q w' have "e = \<lparr>ce_result = ?res, ce_contentDigest = cd (c_originCss cm)\<rparr>"
                by (simp add: BuildCache_set_def)
              then show ?thesis using rp by simp
            next
              case False
              with q w' c0 have "cache w q = Some e"
                by (auto simp: BuildCache_set_def split: if_splits)
              with inv show ?thesis unfolding digests_ok_def by blast
            qed
          qed
          with r_ok show ?thesis by blast
        qed
      qed
    qed
  qed
qed

lemma prepareBuild_digests_ok:
  "prepareBuild U b opts w = (Inr u, b', w') \<Longrightarrow> digests_ok L w'"
  by (auto simp: prepareBuild_def Let_def digests_ok_def split: sum.splits)

lemma resolver_sets_relative_path:
  assumes "onResolveModulesCss U L rargs b = Inr rr" and "build_context b = Some ctx"
  shows "\<exists>absPath. host_resolve L (ra_path rargs) (ra_resolveDir rargs) = Inr absPath \<and>
           relativePathToBuildRoot (rr_pluginData rr) = Some (relative ctx absPath) \<and>
           rr_path rr = relative ctx absPath \<and> rr_watchFiles rr = [absPath]"
  using assms by (auto simp: onResolveModulesCss_def Let_def split: sum.splits)

text \<open>
  Claim C6.  The digest attached to a load result is the slice of lines 230 and 231 of the
  hex SHA-256 of the relative path attached to the same result (by \<open>resolver_sets_relative_path\<close>
  the path of the source relative to the build root), and it is that hash itself when the hash
  has its 64 characters: the slice keeps all of them.  It is a function of the relative path:
  two results that carry the same relative path carry the same digest, whatever the builds,
  the working directories, the path functions and the stores they come from.  This holds for
  results served from the cache as well, since every cached result carries the digest of its
  own relative path (\<open>digests_ok\<close>, which \<^verbatim>\<open>prepareBuild\<close> establishes and a load
  preserves).
\<close>

theorem digest_is_function_of_relative_path:
  assumes "digests_ok L w" and "onLoadModulesCss cd P U L b opts args w = (Inr r, w')"
    and "sha256_hex L2 = sha256_hex L"
    and "digests_ok L2 v" and "onLoadModulesCss cd2 P2 U2 L2 b2 opts2 args2 v = (Inr r2, v')"
    and "relativePathToBuildRoot (lr_pluginData r2) = relativePathToBuildRoot (lr_pluginData r)"
  shows "(\<exists>rp. relativePathToBuildRoot (lr_pluginData r) = Some rp \<and>
              pd_digest (lr_pluginData r) =
                Some (js_slice (sha256_hex L rp) (int (length (sha256_hex L rp)) - 255)
                        (int (length (sha256_hex L rp)))) \<and>
              (length (sha256_hex L rp) = 64 \<longrightarrow> pd_digest (lr_pluginData r) = Some (sha256_hex L rp)))
       \<and> pd_digest (lr_pluginData r2) = pd_digest (lr_pluginData r)
       \<and> digests_ok L w'"
proof -
  from load_result_digest[OF assms(1,2)] obtain rp where
    a: "relativePathToBuildRoot (lr_pluginData r) = Some rp"
       "pd_digest (lr_pluginData r) = Some (load_digest L rp)" and inv: "digests_ok L w'"
    by blast
  from load_result_digest[OF assms(4,5)] obtain rp2 where
    b: "relativePathToBuildRoot (lr_pluginData r2) = Some rp2"
       "pd_digest (lr_pluginData r2) = Some (load_digest L2 rp2)"
    by blast
  have "rp2 = rp" using a(1) b(1) assms(6) by simp
  then have same: "pd_digest (lr_pluginData r2) = pd_digest (lr_pluginData r)"
    using a(2) b(2) assms(3) by (simp add: load_digest_def)
  have "pd_digest (lr_pluginData r) =
                Some (js_slice (sha256_hex L rp) (int (length (sha256_hex L rp)) - 255)
                        (int (length (sha256_hex L rp))))"
    using a(2) by (simp add: load_digest_def Let_def)
  moreover have "length (sha256_hex L rp) = 64 \<longrightarrow> pd_digest (lr_pluginData r) = Some (sha256_hex L rp)"
    using a(2) load_digest_64 by simp
  ultimately show ?thesis using a(1) same inv by blast
qed

theorem digest_is_function_of_relative_path_witness:
  "(let r = projr (fst (onLoadModulesCss content_itself posix demo_utils (demo_libs demo_classes) demo_build demo_options
                        demo_args demo_world));
        r2 = projr (fst (onLoadModulesCss content_itself posix demo_utils (demo_libs demo_classes) ci_build demo_options
                        demo_args ci_world))
    in relativePathToBuildRoot (lr_pluginData r) = Some ''src/button.module.css'' \<and>
       lr_resolveDir r = ''/proj/src'' \<and> lr_resolveDir r2 = ''/home/ci/work/src'' \<and>
       pd_digest (lr_pluginData r) = Some (sha256_hex (demo_libs demo_classes) ''src/button.module.css'') \<and>
       pd_digest (lr_pluginData r2) = pd_digest (lr_pluginData r))"
proof -
  let ?L = "demo_libs demo_classes"
  let ?X = "onLoadModulesCss content_itself posix demo_utils ?L demo_build demo_options demo_args demo_world"
  let ?X2 = "onLoadModulesCss content_itself posix demo_utils ?L ci_build demo_options demo_args ci_world"
  have i1: "digests_ok ?L demo_world" by (simp add: digests_ok_def demo_world_def)
  have i2: "digests_ok ?L ci_world" by (simp add: digests_ok_def ci_world_def)
  have "\<not> isl (fst ?X)" by code_simp
  then have r1: "?X = (Inr (projr (fst ?X)), snd ?X)" by (rule pair_of_Inr)
  have "\<not> isl (fst ?X2)" by code_simp
  then have r2: "?X2 = (Inr (projr (fst ?X2)), snd ?X2)" by (rule pair_of_Inr)
  have same: "relativePathToBuildRoot (lr_pluginData (projr (fst ?X2)))
            = relativePathToBuildRoot (lr_pluginData (projr (fst ?X)))" by code_simp
  have rp: "relativePathToBuildRoot (lr_pluginData (projr (fst ?X))) = Some ''src/button.module.css''"
    by code_simp
  have len: "length (sha256_hex ?L ''src/button.module.css'') = 64" by code_simp
  have dirs: "lr_resolveDir (projr (fst ?X)) = ''/proj/src'' \<and> lr_resolveDir (projr (fst ?X2)) = ''/home/ci/work/src''"
    by code_simp
  from digest_is_function_of_relative_path[OF i1 r1 refl i2 r2 same] rp len dirs
  show ?thesis by (auto simp: Let_def)
qed

text \<open>
  Claim C9.  When \<^verbatim>\<open>prepareBuild\<close>, the first statement of \<^verbatim>\<open>setup\<close>, returns, the
  options of the build are the ones it was given but for \<^verbatim>\<open>metafile\<close>, which is
  \<^verbatim>\<open>true\<close> whatever it was; when \<^verbatim>\<open>getBuildId\<close> rejects, the build is as it was.  The
  statements of \<^verbatim>\<open>setup\<close> after it register the handlers and assign nothing to the
  options.
\<close>

theorem prepareBuild_sets_only_metafile:
  "case prepareBuild U b opts w of
     (Inr u, b', w') \<Rightarrow> initialOptions b' = (initialOptions b)\<lparr>metafile := Some True\<rparr>
   | (Inl e, b', w') \<Rightarrow> b' = b"
  by (simp add: prepareBuild_def Let_def split: sum.splits)

theorem prepareBuild_sets_only_metafile_witness:
  "fst (prepareBuild demo_utils demo_build0 demo_options demo_world) = Inr () \<and>
   initialOptions (fst (snd (prepareBuild demo_utils demo_build0 demo_options demo_world)))
     = demo_initialOptions\<lparr>metafile := Some True\<rparr>"
proof -
  have ok: "fst (prepareBuild demo_utils demo_build0 demo_options demo_world) = Inr ()"
    by (simp add: prepareBuild_def demo_utils_def Let_def)
  from prepareBuild_sets_only_metafile[where U = demo_utils and b = demo_build0 and opts = demo_options and w = demo_world] ok
  show ?thesis by (auto simp: demo_build0_def split: prod.splits sum.splits)
qed

section \<open>Properties of the post-build step\<close>

lemma entryToInject_of_kept:
  "\<not> falsy_path acc \<Longrightarrow> entryToInject_of P root_dir entries outs acc fs = acc"
  by (induction fs) simp_all

lemma entryToInject_of_find:
  assumes "\<forall>f\<in>set fs. path_resolve P root_dir f \<noteq> []"
  shows "entryToInject_of P root_dir entries outs None fs =
           map_option (path_resolve P root_dir) (find (is_requested_entry P root_dir entries outs) fs)"
  using assms
proof (induction fs)
  case Nil
  then show ?case by simp
next
  case (Cons f fs)
  show ?case
  proof (cases "is_requested_entry P root_dir entries outs f")
    case True
    have "\<not> falsy_path (Some (path_resolve P root_dir f))" using Cons.prems by (simp add: falsy_path_def)
    then show ?thesis using True by (simp add: entryToInject_of_kept falsy_path_def)
  next
    case False
    then show ?thesis using Cons by simp
  qed
qed

lemma fixSourceMappingURL_frame:
  "fixSourceMappingURL P io absOutdir entryPath f = Inr f1 \<Longrightarrow> q \<noteq> entryPath \<Longrightarrow> f1 q = f q"
  by (auto simp: fixSourceMappingURL_def Let_def writeFile_def appendFile_def split: if_splits sum.splits)

lemma buildJs_frame:
  assumes frame: "\<forall>bo f q. q \<notin> W bo \<longrightarrow> snd (esbuild_build L bo f) q = f q"
    and run: "buildJs P L io absOutdir entryName entryPath jsCode w = (res, w')"
    and q: "q \<noteq> entryPath" "q \<noteq> tmpJsPath P absOutdir"
           "q \<notin> W (nestedBuildOptions io absOutdir entryName (tmpJsPath P absOutdir))"
  shows "files w' q = files w q"
proof (cases "fixSourceMappingURL P io absOutdir entryPath (files w)")
  case (Inl e)
  with run show ?thesis by (simp add: buildJs_def Let_def)
next
  case (Inr f1)
  let ?bo = "nestedBuildOptions io absOutdir entryName (tmpJsPath P absOutdir)"
  let ?tmp = "tmpJsPath P absOutdir"
  define f2 where "f2 = writeFile ?tmp
     ((''import '' @ dq @ ''./'' @ relativeToOutdir P absOutdir entryPath @ dq @ '';'' @ nl @
       ''export * from '' @ dq @ ''./'' @ relativeToOutdir P absOutdir entryPath @ dq @ '';'') @ nl @ jsCode) f1"
  have 1: "f1 q = files w q" using fixSourceMappingURL_frame[OF Inr q(1)] .
  have 2: "f2 q = f1 q" using q(2) by (simp add: f2_def writeFile_def)
  obtain r3 f3 where nb: "esbuild_build L ?bo f2 = (r3, f3)" by (cases "esbuild_build L ?bo f2")
  have 3: "f3 q = f2 q" using frame q(3) nb by (metis snd_conv)
  show ?thesis
  proof (cases r3)
    case e: (Inl e)
    with run Inr nb have "w' = w\<lparr>files := f3\<rparr>" by (simp add: buildJs_def Let_def f2_def)
    with 1 2 3 show ?thesis by simp
  next
    case u: (Inr u)
    obtain r4 f4 where ul: "unlink ?tmp f3 = (r4, f4)" by (cases "unlink ?tmp f3")
    have 4: "f4 q = f3 q" using ul q(2) by (auto simp: unlink_def split: option.splits)
    from run Inr nb u ul have "w' = w\<lparr>files := f4\<rparr>" by (simp add: buildJs_def Let_def f2_def)
    with 1 2 3 4 show ?thesis by simp
  qed
qed

lemma buildJs_rest:
  assumes "buildJs P L io absOutdir entryName entryPath jsCode w = (res, w')"
  shows "cache w' = cache w \<and> compiler_calls w' = compiler_calls w"
  using assms unfolding buildJs_def Let_def
  by (auto split: if_splits sum.splits prod.splits)

text \<open>
  Claim C8, as the code has it.  When \<^verbatim>\<open>buildJs\<close> returns, the temporary entry file is
  gone.
\<close>

theorem buildJs_removes_temp_file_on_success:
  assumes "buildJs P L io absOutdir entryName entryPath jsCode w = (Inr u, w')"
  shows "files w' (tmpJsPath P absOutdir) = None"
  using assms unfolding buildJs_def Let_def
  by (auto simp: unlink_def split: if_splits sum.splits prod.splits option.splits)

theorem buildJs_removes_temp_file_on_success_witness:
  "fst (buildJs posix (demo_libs []) demo_initialOptions ''/proj/out'' ''a'' ''/proj/out/a.js''
          ''inject();'' demo_outputs_world) = Inr () \<and>
   files (snd (buildJs posix (demo_libs []) demo_initialOptions ''/proj/out'' ''a'' ''/proj/out/a.js''
          ''inject();'' demo_outputs_world)) (tmpJsPath posix ''/proj/out'') = None"
proof -
  let ?Z = "buildJs posix (demo_libs []) demo_initialOptions ''/proj/out'' ''a'' ''/proj/out/a.js''
          ''inject();'' demo_outputs_world"
  have ok: "fst ?Z = Inr ()" by code_simp
  then have "?Z = (Inr (), snd ?Z)" by (metis prod.collapse)
  from buildJs_removes_temp_file_on_success[OF this] ok show ?thesis by simp
qed

text \<open>
  Claim C8 as stated fails when the nested build rejects: the error leaves \<^verbatim>\<open>buildJs\<close>
  before \<^verbatim>\<open>unlink\<close>, and the temporary entry file stays where it was written.
\<close>

theorem temp_file_left_on_failure_counterexample:
  "fst (onEnd (\<lambda>blobs. blobs) posix demo_utils failing_libs demo_build demo_options demo_result demo_outputs_world)
     = Inl (Error ''Build failed with 1 error'') \<and>
   files (snd (onEnd (\<lambda>blobs. blobs) posix demo_utils failing_libs demo_build demo_options demo_result demo_outputs_world))
     ''/proj/out/.build.inject.js'' =
     Some (''import '' @ dq @ ''./a.js'' @ dq @ '';'' @ nl @ ''export * from '' @ dq @ ''./a.js'' @ dq @ '';'' @ nl @
           ''inject(head, b1): .a_x{color:red}'' @ nl @ ''.b_y{color:blue}'')"
  by code_simp

lemma onEnd_unfold:
  assumes ctx: "build_context b = Some ctx"
    and inj: "truthy_inject (inject opts)"
    and od: "outdir (initialOptions b) = Some od"
    and eps: "entryPoints (initialOptions b) = Some eps"
    and outs: "br_outputs result = Some outs"
    and css: "cssContents_of P L (initialOptions b) (buildRoot ctx) (files w) (Object_keys outs) = Inr pushed"
  shows "onEnd completion P U L b opts result w =
     (case entryToInject_of P (buildRoot ctx) (entries_of P (buildRoot ctx) eps) outs None (Object_keys outs) of
        None \<Rightarrow> (Inr (), w)
      | Some e \<Rightarrow>
         if e \<noteq> [] \<and> completion pushed \<noteq> []
         then buildJs P L (initialOptions b)
                (if path_isAbsolute P od then od else path_resolve P (buildRoot ctx) od)
                (path_basename2 P e (path_extname P e)) e
                (buildInjectCode U (case inject opts of Some (InjectSelector s) \<Rightarrow> s | _ \<Rightarrow> ''head'')
                   (js_join nl (completion pushed)) (buildId ctx) opts) w
         else (Inr (), w))"
  using assms by (simp add: onEnd_def Let_def cong: option.case_cong if_cong)

lemma onEnd_css_error:
  assumes ctx: "build_context b = Some ctx"
    and inj: "truthy_inject (inject opts)"
    and od: "outdir (initialOptions b) = Some od"
    and eps: "entryPoints (initialOptions b) = Some eps"
    and outs: "br_outputs result = Some outs"
    and css: "cssContents_of P L (initialOptions b) (buildRoot ctx) (files w) (Object_keys outs) = Inl e"
  shows "onEnd completion P U L b opts result w = (Inl e, w)"
  using assms by (simp add: onEnd_def Let_def)

lemma nested_outputs_nestedBuildOptions:
  "nested_outputs P (nestedBuildOptions io absOutdir entryName tmp) =
     set (map (\<lambda>x. absOutdir @ [path_sep P] @ entryName @ x) [''.js'', ''.js.map'', ''.css'', ''.css.map''])"
  by (simp add: nested_outputs_def nestedBuildOptions_def)

lemma cssContents_of_Inr:
  "cssContents_of P L io root_dir f xs = Inr pushed \<Longrightarrow>
   list_all2 (\<lambda>x t. \<exists>css_text. f (path_resolve P root_dir x) = Some css_text \<and> transformCss L io css_text = Inr t)
     (filter (\<lambda>x. path_extname P x = ''.css'') xs) pushed"
proof (induction xs arbitrary: pushed)
  case Nil
  then show ?case by simp
next
  case (Cons x xs)
  show ?case
  proof (cases "path_extname P x = ''.css''")
    case False
    with Cons show ?thesis by simp
  next
    case True
    from Cons.prems True obtain css_text t rest where
      rd: "readFile (path_resolve P root_dir x) f = Inr css_text" and
      tr: "transformCss L io css_text = Inr t" and
      re: "cssContents_of P L io root_dir f xs = Inr rest" and
      pu: "pushed = t # rest"
      by (auto split: sum.splits)
    from rd have "f (path_resolve P root_dir x) = Some css_text"
      by (auto simp: readFile_def split: option.splits)
    with tr Cons.IH[OF re] pu True show ?thesis by auto
  qed
qed

lemma buildJs_fix_error:
  assumes "fixSourceMappingURL P io absOutdir entryPath (files w) = Inl err"
    and "buildJs P L io absOutdir entryName entryPath jsCode w = (res, w')"
  shows "res = Inl err \<and> w' = w"
  using assms by (simp add: buildJs_def Let_def)

lemma buildJs_one_build:
  assumes fx: "fixSourceMappingURL P io absOutdir entryPath (files w) = Inr f1"
    and run: "buildJs P L io absOutdir entryName entryPath jsCode w = (res, w')"
  shows "(res, files w') =
     (case esbuild_build L (nestedBuildOptions io absOutdir entryName (tmpJsPath P absOutdir))
             (f1(tmpJsPath P absOutdir \<mapsto>
                 (''import '' @ dq @ ''./'' @ relativeToOutdir P absOutdir entryPath @ dq @ '';'' @ nl @
                  ''export * from '' @ dq @ ''./'' @ relativeToOutdir P absOutdir entryPath @ dq @ '';'') @
                 nl @ jsCode)) of
        (Inl err, f3) \<Rightarrow> (Inl err, f3)
      | (Inr u, f3) \<Rightarrow> unlink (tmpJsPath P absOutdir) f3)"
proof -
  let ?bo = "nestedBuildOptions io absOutdir entryName (tmpJsPath P absOutdir)"
  let ?f2 = "f1(tmpJsPath P absOutdir \<mapsto>
                 (''import '' @ dq @ ''./'' @ relativeToOutdir P absOutdir entryPath @ dq @ '';'' @ nl @
                  ''export * from '' @ dq @ ''./'' @ relativeToOutdir P absOutdir entryPath @ dq @ '';'') @
                 nl @ jsCode)"
  obtain r3 f3 where nb: "esbuild_build L ?bo ?f2 = (r3, f3)" by (cases "esbuild_build L ?bo ?f2")
  show ?thesis
  proof (cases r3)
    case (Inl err)
    with run fx nb show ?thesis by (auto simp: buildJs_def Let_def writeFile_def)
  next
    case (Inr u)
    obtain r4 f4 where ul: "unlink (tmpJsPath P absOutdir) f3 = (r4, f4)"
      by (cases "unlink (tmpJsPath P absOutdir) f3")
    with run fx nb Inr show ?thesis by (auto simp: buildJs_def Let_def writeFile_def)
  qed
qed

lemma demo_nested_build_frame:
  "\<forall>bo f q. q \<notin> nested_outputs posix bo \<longrightarrow> snd (esbuild_build (demo_libs cls) bo f) q = f q"
  by (auto simp: demo_libs_def demo_nested_build_def nested_outputs_def posix_def split: list.splits option.splits)

text \<open>
  Claim C2, as the code has it.  With injection on, \<^verbatim>\<open>onEnd\<close> runs at most one nested
  build, whatever the number of entry points: for the first output of the metafile, in its
  order, that has a requested entry point and a JavaScript extension.  When there is none, or
  no style sheet, or a style sheet cannot be read or transformed, the store is as it was.
  Otherwise the temporary entry file imports that output and holds one injected bundle, made
  of the transformed style sheets of all the \<^verbatim>\<open>.css\<close> outputs joined, and
  \<^verbatim>\<open>esbuild.build\<close> is called once, with the base name of that output as the name of
  its one entry point and with the output directory of the build; the temporary entry file is
  removed when that build returns.  If a nested build writes nothing but the bundle of its
  entry point, its style sheet and their source maps (\<open>nested_outputs\<close>), every file
  other than these four, the matched output and the temporary entry file is as it was.
\<close>

theorem onEnd_one_nested_build_for_first_match:
  assumes ctx: "build_context b = Some ctx"
    and inj: "truthy_inject (inject opts)"
    and od: "outdir (initialOptions b) = Some od"
    and eps: "entryPoints (initialOptions b) = Some eps"
    and outs: "br_outputs result = Some outs"
    and nonempty: "\<forall>f\<in>set (Object_keys outs). path_resolve P (buildRoot ctx) f \<noteq> []"
    and writes: "\<forall>bo f q. q \<notin> nested_outputs P bo \<longrightarrow> snd (esbuild_build L bo f) q = f q"
    and run: "onEnd completion P U L b opts result w = (res, w')"
  shows "let root_dir = buildRoot ctx;
             io = initialOptions b;
             absOutdir = (if path_isAbsolute P od then od else path_resolve P root_dir od);
             tmp = tmpJsPath P absOutdir
         in cache w' = cache w \<and> compiler_calls w' = compiler_calls w \<and>
            (case find (is_requested_entry P root_dir (entries_of P root_dir eps) outs) (Object_keys outs) of
               None \<Rightarrow> w' = w
             | Some f \<Rightarrow>
                (let e = path_resolve P root_dir f;
                     entryName = path_basename2 P e (path_extname P e);
                     bo = nestedBuildOptions io absOutdir entryName tmp
                 in bo_entryPoints bo = [(entryName, tmp)] \<and> bo_outdir bo = absOutdir \<and>
                    (\<forall>q. q \<noteq> e \<and> q \<noteq> tmp \<and>
                         q \<notin> set (map (\<lambda>x. absOutdir @ [path_sep P] @ entryName @ x)
                                     [''.js'', ''.js.map'', ''.css'', ''.css.map''])
                         \<longrightarrow> files w' q = files w q) \<and>
                    (case cssContents_of P L io root_dir (files w) (Object_keys outs) of
                       Inl err \<Rightarrow> res = Inl err \<and> w' = w
                     | Inr pushed \<Rightarrow>
                        list_all2
                          (\<lambda>x t. \<exists>css_text. files w (path_resolve P root_dir x) = Some css_text \<and>
                                             transformCss L io css_text = Inr t)
                          (filter (\<lambda>x. path_extname P x = ''.css'') (Object_keys outs)) pushed \<and>
                        (if completion pushed = [] then res = Inr () \<and> w' = w
                         else (case fixSourceMappingURL P io absOutdir e (files w) of
                                 Inl err \<Rightarrow> res = Inl err \<and> w' = w
                               | Inr f1 \<Rightarrow>
                                  (res, files w') =
                                    (case esbuild_build L bo
                                            (f1(tmp \<mapsto>
                                                (''import '' @ dq @ ''./'' @ relativeToOutdir P absOutdir e @ dq @ '';'' @ nl @
                                                 ''export * from '' @ dq @ ''./'' @ relativeToOutdir P absOutdir e @ dq @ '';'') @
                                                nl @
                                                buildInjectCode U
                                                  (case inject opts of Some (InjectSelector s) \<Rightarrow> s | _ \<Rightarrow> ''head'')
                                                  (js_join nl (completion pushed)) (buildId ctx) opts)) of
                                       (Inl err, f3) \<Rightarrow> (Inl err, f3)
                                     | (Inr u, f3) \<Rightarrow> unlink tmp f3))))))"
proof -
  let ?root = "buildRoot ctx"
  let ?abs = "if path_isAbsolute P od then od else path_resolve P ?root od"
  let ?io = "initialOptions b"
  let ?keys = "Object_keys outs"
  let ?tmp = "tmpJsPath P ?abs"
  let ?matched = "find (is_requested_entry P ?root (entries_of P ?root eps) outs) ?keys"
  let ?container = "case inject opts of Some (InjectSelector s) \<Rightarrow> s | _ \<Rightarrow> ''head''"
  have eti: "entryToInject_of P ?root (entries_of P ?root eps) outs None ?keys
               = map_option (path_resolve P ?root) ?matched"
    by (rule entryToInject_of_find[OF nonempty])
  have bo: "bo_entryPoints (nestedBuildOptions ?io ?abs n ?tmp) = [(n, ?tmp)] \<and>
            bo_outdir (nestedBuildOptions ?io ?abs n ?tmp) = ?abs" for n
    by (simp add: nestedBuildOptions_def)
  show ?thesis
  proof (cases "cssContents_of P L ?io ?root (files w) ?keys")
    case (Inl err)
    from onEnd_css_error[OF ctx inj od eps outs Inl] run have "res = Inl err \<and> w' = w" by simp
    then show ?thesis using Inl bo unfolding Let_def
      by (cases ?matched) (simp_all split del: if_split)
  next
    case (Inr pushed)
    note unf = onEnd_unfold[OF ctx inj od eps outs Inr, of completion U]
    have all: "list_all2
        (\<lambda>x t. \<exists>css_text. files w (path_resolve P ?root x) = Some css_text \<and> transformCss L ?io css_text = Inr t)
        (filter (\<lambda>x. path_extname P x = ''.css'') ?keys) pushed"
      by (rule cssContents_of_Inr[OF Inr])
    show ?thesis
    proof (cases ?matched)
      case None
      with unf eti run have "w' = w" by simp
      then show ?thesis using None unfolding Let_def by (simp split del: if_split)
    next
      case (Some f)
      let ?e = "path_resolve P ?root f"
      let ?name = "path_basename2 P ?e (path_extname P ?e)"
      let ?code = "buildInjectCode U ?container (js_join nl (completion pushed)) (buildId ctx) opts"
      have fin: "f \<in> set ?keys" using Some by (auto simp: find_Some_iff)
      then have ne: "?e \<noteq> []" using nonempty by blast
      show ?thesis
      proof (cases "completion pushed = []")
        case True
        with unf eti run Some have "res = Inr () \<and> w' = w" by simp
        then show ?thesis using Some Inr True all bo unfolding Let_def by (simp split del: if_split)
      next
        case False
        with unf eti run Some ne have bj: "buildJs P L ?io ?abs ?name ?e ?code w = (res, w')" by simp
        have fr: "\<forall>q. q \<noteq> ?e \<and> q \<noteq> ?tmp \<and>
                 q \<notin> set (map (\<lambda>x. ?abs @ [path_sep P] @ ?name @ x) [''.js'', ''.js.map'', ''.css'', ''.css.map''])
                 \<longrightarrow> files w' q = files w q"
          using buildJs_frame[OF writes bj] unfolding nested_outputs_nestedBuildOptions by blast
        have ex: "case fixSourceMappingURL P ?io ?abs ?e (files w) of
                    Inl err \<Rightarrow> res = Inl err \<and> w' = w
                  | Inr f1 \<Rightarrow>
                     (res, files w') =
                       (case esbuild_build L (nestedBuildOptions ?io ?abs ?name ?tmp)
                               (f1(?tmp \<mapsto>
                                   (''import '' @ dq @ ''./'' @ relativeToOutdir P ?abs ?e @ dq @ '';'' @ nl @
                                    ''export * from '' @ dq @ ''./'' @ relativeToOutdir P ?abs ?e @ dq @ '';'') @
                                   nl @ ?code)) of
                          (Inl err, f3) \<Rightarrow> (Inl err, f3)
                        | (Inr u, f3) \<Rightarrow> unlink ?tmp f3)"
        proof (cases "fixSourceMappingURL P ?io ?abs ?e (files w)")
          case fl: (Inl err)
          from buildJs_fix_error[OF fl bj] fl show ?thesis by simp
        next
          case fr: (Inr f1)
          from buildJs_one_build[OF fr bj] fr show ?thesis by simp
        qed
        from fr ex buildJs_rest[OF bj] Some Inr False all bo show ?thesis
          unfolding Let_def by (simp split del: if_split)
      qed
    qed
  qed
qed

theorem onEnd_one_nested_build_for_first_match_witness:
  "(let X = onEnd (\<lambda>blobs. blobs) posix demo_utils (demo_libs []) demo_build demo_options demo_result demo_outputs_world
    in find (is_requested_entry posix ''/proj'' [''/proj/src/a.js'', ''/proj/src/b.js'']
               [(''out/a.css'', \<lparr>mo_entryPoint = None, mo_bytes = 15\<rparr>),
                (''out/a.js'', \<lparr>mo_entryPoint = Some ''src/a.js'', mo_bytes = 19\<rparr>),
                (''out/b.css'', \<lparr>mo_entryPoint = None, mo_bytes = 16\<rparr>),
                (''out/b.js'', \<lparr>mo_entryPoint = Some ''src/b.js'', mo_bytes = 19\<rparr>)])
            [''out/a.css'', ''out/a.js'', ''out/b.css'', ''out/b.js''] = Some ''out/a.js'' \<and>
       bo_entryPoints (nestedBuildOptions (initialOptions demo_build) ''/proj/out'' ''a'' ''/proj/out/.build.inject.js'')
         = [(''a'', ''/proj/out/.build.inject.js'')] \<and>
       files (snd X) ''/proj/out/b.js'' = files demo_outputs_world ''/proj/out/b.js'' \<and>
       files (snd X) ''/proj/out/b.css'' = files demo_outputs_world ''/proj/out/b.css'' \<and>
       cache (snd X) = cache demo_outputs_world \<and>
       compiler_calls (snd X) = compiler_calls demo_outputs_world)"
proof -
  let ?L = "demo_libs []"
  let ?ctx = "the (build_context demo_build)"
  let ?X = "onEnd (\<lambda>blobs. blobs) posix demo_utils ?L demo_build demo_options demo_result demo_outputs_world"
  let ?outs = "[(''out/a.css'', \<lparr>mo_entryPoint = None, mo_bytes = 15\<rparr>),
                (''out/a.js'', \<lparr>mo_entryPoint = Some ''src/a.js'', mo_bytes = 19\<rparr>),
                (''out/b.css'', \<lparr>mo_entryPoint = None, mo_bytes = 16\<rparr>),
                (''out/b.js'', \<lparr>mo_entryPoint = Some ''src/b.js'', mo_bytes = 19\<rparr>)]"
  let ?eps = "EntryArray [EntryString ''src/a.js'', EntryString ''src/b.js'']"
  let ?written = "set (map (\<lambda>x. ''/proj/out'' @ [path_sep posix] @ ''a'' @ x) [''.js'', ''.js.map'', ''.css'', ''.css.map''])"
  have inj: "truthy_inject (inject demo_options)" by code_simp
  have od: "outdir (initialOptions demo_build) = Some ''out''" by code_simp
  have eps: "entryPoints (initialOptions demo_build) = Some ?eps" by code_simp
  have outs: "br_outputs demo_result = Some ?outs" by (simp add: demo_result_def)
  have root: "buildRoot ?ctx = ''/proj''" by code_simp
  have ne: "\<forall>f\<in>set (Object_keys ?outs). path_resolve posix (buildRoot ?ctx) f \<noteq> []"
    unfolding root by code_simp
  have entries: "entries_of posix ''/proj'' ?eps = [''/proj/src/a.js'', ''/proj/src/b.js'']" by code_simp
  have keys: "Object_keys ?outs = [''out/a.css'', ''out/a.js'', ''out/b.css'', ''out/b.js'']"
    by (simp add: Object_keys_def)
  have m: "find (is_requested_entry posix ''/proj'' [''/proj/src/a.js'', ''/proj/src/b.js''] ?outs)
             [''out/a.css'', ''out/a.js'', ''out/b.css'', ''out/b.js''] = Some ''out/a.js''"
    by code_simp
  have abs: "(if path_isAbsolute posix ''out'' then ''out'' else path_resolve posix ''/proj'' ''out'') = ''/proj/out''"
    by code_simp
  have e: "path_resolve posix ''/proj'' ''out/a.js'' = ''/proj/out/a.js''" by code_simp
  have n: "path_basename2 posix ''/proj/out/a.js'' (path_extname posix ''/proj/out/a.js'') = ''a''" by code_simp
  have tmp: "tmpJsPath posix ''/proj/out'' = ''/proj/out/.build.inject.js''" by code_simp
  have wr: "?written = {''/proj/out/a.js'', ''/proj/out/a.js.map'', ''/proj/out/a.css'', ''/proj/out/a.css.map''}"
    by (simp add: posix_def)
  note T = onEnd_one_nested_build_for_first_match
         [OF demo_ctx inj od eps outs ne demo_nested_build_frame[of "[]"] surjective_pairing,
          where completion = "\<lambda>blobs. blobs" and U = demo_utils and w = demo_outputs_world]
  have "bo_entryPoints (nestedBuildOptions (initialOptions demo_build) ''/proj/out'' ''a'' ''/proj/out/.build.inject.js'')
          = [(''a'', ''/proj/out/.build.inject.js'')] \<and>
        (\<forall>q. q \<noteq> ''/proj/out/a.js'' \<and> q \<noteq> ''/proj/out/.build.inject.js'' \<and>
             q \<notin> {''/proj/out/a.js'', ''/proj/out/a.js.map'', ''/proj/out/a.css'', ''/proj/out/a.css.map''}
           \<longrightarrow> files (snd ?X) q = files demo_outputs_world q) \<and>
        cache (snd ?X) = cache demo_outputs_world \<and>
        compiler_calls (snd ?X) = compiler_calls demo_outputs_world"
    using T unfolding Let_def root keys entries m option.case abs e n tmp wr by blast
  then show ?thesis using m by (simp add: Let_def)
qed

text \<open>
  Claim C2 as stated fails for two entry points that each import a style sheet of their own:
  the bundle of the second is left as it was, and the bundle of the first receives the style
  sheets of both.
\<close>

theorem two_entries_one_injection_counterexample:
  "files (snd (onEnd (\<lambda>blobs. blobs) posix demo_utils (demo_libs []) demo_build demo_options demo_result demo_outputs_world))
     ''/proj/out/b.js'' = Some ''export const b = 2;'' \<and>
   files (snd (onEnd (\<lambda>blobs. blobs) posix demo_utils (demo_libs []) demo_build demo_options demo_result demo_outputs_world))
     ''/proj/out/a.js'' =
     Some (''/* bundle */import '' @ dq @ ''./a.js'' @ dq @ '';'' @ nl @ ''export * from '' @ dq @ ''./a.js'' @ dq @ '';'' @ nl @
           ''inject(head, b1): .a_x{color:red}'' @ nl @ ''.b_y{color:blue}'')"
  by code_simp

text \<open>
  Claim C3.  The code at a build whose nested build fails: \<^verbatim>\<open>onEnd\<close> rejects with the
  error of the nested build, and the callback that \<^verbatim>\<open>setup\<close> registers, which drops the
  promise of \<^verbatim>\<open>onEnd\<close>, is fulfilled, so the host build is told nothing of the failure.
\<close>

theorem rejected_onEnd_fulfilled_callback:
  "fst (onEnd (\<lambda>blobs. blobs) posix demo_utils failing_libs demo_build demo_options demo_result demo_outputs_world)
     = Inl (Error ''Build failed with 1 error'') \<and>
   fst (setup_onEnd_callback (\<lambda>blobs. blobs) posix demo_utils failing_libs demo_build demo_options demo_result
          demo_outputs_world) = Inr ()"
  by code_simp

end
